theory Spec2Isabelle
  imports Complex_Main "HOL-Library.Word" "HOL-Library.Signed_Division"
begin

section \<open>Sympathetic strings: the rigid-bridge model of physics.cpp\<close>

text \<open>
  The development embeds \<^verbatim>\<open>generativos/sympathetic-strings/src/physics.cpp\<close>:
  the struct \<^verbatim>\<open>StringState\<close>, the class \<^verbatim>\<open>SympatheticStrings\<close> and its
  operations \<^verbatim>\<open>pluck\<close>, \<^verbatim>\<open>step\<close>, \<^verbatim>\<open>stepOnce\<close>, \<^verbatim>\<open>computeEnergy\<close>,
  \<^verbatim>\<open>recordHistory\<close>, the setters and \<^verbatim>\<open>reset\<close>.
\<close>

subsection \<open>The type \<^verbatim>\<open>float\<close>\<close>

text \<open>
  A C++ \<^verbatim>\<open>float\<close> is a finite number, an infinity or a NaN. The special values follow
  IEEE 754: they propagate through the arithmetic, every ordered comparison with a NaN is
  false, and a finite operation whose result has a magnitude of \<^verbatim>\<open>2^128 - 2^103\<close> or more
  (what binary32 rounds to an infinity) overflows to the infinity of its sign. Below that
  bound finite arithmetic is exact: rounding to 24 bits, underflow and the sign of a zero are
  not modelled (a zero divisor counts as +0), and a literal such as \<^verbatim>\<open>261.63f\<close> stands
  for the decimal it is written as. Rounding is added further down, for \<^verbatim>\<open>pluck\<close>.
\<close>

datatype f32 = Fin real | PInf | NInf | NaN

fun isfinite :: "f32 \<Rightarrow> bool" where
  "isfinite (Fin x) = True"
| "isfinite PInf = False"
| "isfinite NInf = False"
| "isfinite NaN = False"

text \<open>The number a finite float stands for (0 for the others, which no statement below reads).\<close>

fun val :: "f32 \<Rightarrow> real" where
  "val (Fin x) = x"
| "val PInf = 0"
| "val NInf = 0"
| "val NaN = 0"

text \<open>The overflow threshold of binary32, and a real result turned into a float.\<close>

definition FLT_OVF :: real where
  "FLT_OVF = 2 ^ 128 - 2 ^ 103"

definition ovf :: "real \<Rightarrow> f32" where
  "ovf r = (if FLT_OVF \<le> r then PInf else if r \<le> - FLT_OVF then NInf else Fin r)"

fun fneg :: "f32 \<Rightarrow> f32" where
  "fneg (Fin x) = Fin (- x)"
| "fneg PInf = NInf"
| "fneg NInf = PInf"
| "fneg NaN = NaN"

fun fadd :: "f32 \<Rightarrow> f32 \<Rightarrow> f32" where
  "fadd (Fin a) (Fin b) = ovf (a + b)"
| "fadd NaN b = NaN"
| "fadd a NaN = NaN"
| "fadd PInf NInf = NaN"
| "fadd NInf PInf = NaN"
| "fadd PInf b = PInf"
| "fadd NInf b = NInf"
| "fadd (Fin a) PInf = PInf"
| "fadd (Fin a) NInf = NInf"

definition fsub :: "f32 \<Rightarrow> f32 \<Rightarrow> f32" where
  "fsub a b = fadd a (fneg b)"

fun fmul :: "f32 \<Rightarrow> f32 \<Rightarrow> f32" where
  "fmul (Fin a) (Fin b) = ovf (a * b)"
| "fmul NaN b = NaN"
| "fmul a NaN = NaN"
| "fmul PInf (Fin b) = (if b = 0 then NaN else if 0 < b then PInf else NInf)"
| "fmul NInf (Fin b) = (if b = 0 then NaN else if 0 < b then NInf else PInf)"
| "fmul (Fin a) PInf = (if a = 0 then NaN else if 0 < a then PInf else NInf)"
| "fmul (Fin a) NInf = (if a = 0 then NaN else if 0 < a then NInf else PInf)"
| "fmul PInf PInf = PInf"
| "fmul PInf NInf = NInf"
| "fmul NInf PInf = NInf"
| "fmul NInf NInf = PInf"

fun fdiv :: "f32 \<Rightarrow> f32 \<Rightarrow> f32" where
  "fdiv (Fin a) (Fin b) =
     (if b \<noteq> 0 then ovf (a / b) else if a = 0 then NaN else if 0 < a then PInf else NInf)"
| "fdiv NaN b = NaN"
| "fdiv a NaN = NaN"
| "fdiv (Fin a) PInf = Fin 0"
| "fdiv (Fin a) NInf = Fin 0"
| "fdiv PInf (Fin b) = (if 0 \<le> b then PInf else NInf)"
| "fdiv NInf (Fin b) = (if 0 \<le> b then NInf else PInf)"
| "fdiv PInf PInf = NaN"
| "fdiv PInf NInf = NaN"
| "fdiv NInf PInf = NaN"
| "fdiv NInf NInf = NaN"

text \<open>\<^verbatim>\<open>std::sqrt\<close>.\<close>

fun fsqrt :: "f32 \<Rightarrow> f32" where
  "fsqrt (Fin x) = (if x < 0 then NaN else Fin (sqrt x))"
| "fsqrt PInf = PInf"
| "fsqrt NInf = NaN"
| "fsqrt NaN = NaN"

text \<open>The comparisons \<^verbatim>\<open><\<close> and \<^verbatim>\<open>==\<close> of two floats.\<close>

fun flt :: "f32 \<Rightarrow> f32 \<Rightarrow> bool" where
  "flt (Fin a) (Fin b) = (a < b)"
| "flt NaN b = False"
| "flt a NaN = False"
| "flt NInf NInf = False"
| "flt NInf b = True"
| "flt a NInf = False"
| "flt PInf b = False"
| "flt (Fin a) PInf = True"

fun feq :: "f32 \<Rightarrow> f32 \<Rightarrow> bool" where
  "feq NaN b = False"
| "feq a NaN = False"
| "feq a b = (a = b)"

text \<open>
  \<^verbatim>\<open>std::min(a, b)\<close> is \<^verbatim>\<open>(b < a) ? b : a\<close> and \<^verbatim>\<open>std::max(a, b)\<close> is
  \<^verbatim>\<open>(a < b) ? b : a\<close>: with a NaN second argument both return the first.
\<close>

definition std_min :: "f32 \<Rightarrow> f32 \<Rightarrow> f32" where
  "std_min a b = (if flt b a then b else a)"

definition std_max :: "f32 \<Rightarrow> f32 \<Rightarrow> f32" where
  "std_max a b = (if flt a b then b else a)"

subsection \<open>Constants and loops\<close>

definition NUM_POINTS :: nat where
  "NUM_POINTS = 200"

definition HISTORY_LENGTH :: nat where
  "HISTORY_LENGTH = 500"

text \<open>\<^verbatim>\<open>for (int i = i0; i < n; i++) body(i)\<close> on a state \<open>s\<close>.\<close>

function for_loop :: "nat \<Rightarrow> nat \<Rightarrow> (nat \<Rightarrow> 'a \<Rightarrow> 'a) \<Rightarrow> 'a \<Rightarrow> 'a" where
  "for_loop i n body s = (if i < n then for_loop (Suc i) n body (body i s) else s)"
  by pat_completeness auto
termination
  by (relation "measure (\<lambda>(i, n, body, s). n - i)") auto

declare for_loop.simps [simp del]

subsection \<open>\<^verbatim>\<open>struct StringState\<close>\<close>

record StringState =
  y :: "f32 list"
  y_prev :: "f32 list"
  v :: "f32 list"
  frequency :: f32
  tension :: f32
  density :: f32
  damping :: f32
  waveSpeed :: f32
  length_s :: f32
  kineticEnergy :: f32
  potentialEnergy :: f32
  totalEnergy :: f32
  forceOnBridge :: f32

text \<open>The constructor \<^verbatim>\<open>StringState()\<close>.\<close>

definition StringState_new :: StringState where
  "StringState_new =
     \<lparr> y = replicate NUM_POINTS (Fin 0),
       y_prev = replicate NUM_POINTS (Fin 0),
       v = replicate NUM_POINTS (Fin 0),
       frequency = Fin 261.63,
       tension = Fin 100,
       density = Fin 0.001,
       damping = Fin 0.00001,
       waveSpeed = fsqrt (fdiv (Fin 100) (Fin 0.001)),
       length_s = Fin 1,
       kineticEnergy = Fin 0,
       potentialEnergy = Fin 0,
       totalEnergy = Fin 0,
       forceOnBridge = Fin 0 \<rparr>"

definition setFrequency :: "f32 \<Rightarrow> StringState \<Rightarrow> StringState" where
  "setFrequency freq s =
     (let s1 = s\<lparr>frequency := freq\<rparr>;
          s2 = s1\<lparr>tension :=
                 fmul (fmul (fmul (fmul (fmul (Fin 4) (density s1)) (length_s s1)) (length_s s1)) freq) freq\<rparr>
      in s2\<lparr>waveSpeed := fsqrt (fdiv (tension s2) (density s2))\<rparr>)"

subsection \<open>\<^verbatim>\<open>class SympatheticStrings\<close>\<close>

text \<open>
  \<^verbatim>\<open>stepCount\<close> is a 32-bit \<^verbatim>\<open>int\<close>, read by \<open>sint\<close>; its increment wraps, as the WebAssembly target
  does (in C++ the overflow itself is undefined).
\<close>

record SympatheticStrings =
  string1 :: StringState
  string2 :: StringState
  bridgeY :: f32
  bridgeV :: f32
  bridgeStiffness :: f32
  dt :: f32
  time :: f32
  stepCount :: "32 word"
  energy1History :: "f32 list"
  energy2History :: "f32 list"
  bridgeHistory :: "f32 list"

text \<open>The constructor \<^verbatim>\<open>SympatheticStrings()\<close>; \<^verbatim>\<open>reserve\<close> changes no contents.\<close>

definition construct :: SympatheticStrings where
  "construct =
     \<lparr> string1 = setFrequency (Fin 261.63) StringState_new,
       string2 = setFrequency (Fin 392.00) StringState_new,
       bridgeY = Fin 0,
       bridgeV = Fin 0,
       bridgeStiffness = Fin 1,
       dt = fdiv (Fin 1) (fmul (Fin 44100) (Fin 8)),
       time = Fin 0,
       stepCount = 0,
       energy1History = [],
       energy2History = [],
       bridgeHistory = [] \<rparr>"

subsubsection \<open>\<^verbatim>\<open>computeEnergy\<close>\<close>

text \<open>One iteration of the loop of \<^verbatim>\<open>computeEnergy\<close>, on the accumulators \<open>(ke, pe)\<close>.\<close>

definition energy_body :: "StringState \<Rightarrow> f32 \<Rightarrow> nat \<Rightarrow> f32 \<times> f32 \<Rightarrow> f32 \<times> f32" where
  "energy_body s dx i acc =
     (let ke = fadd (fst acc)
                 (fmul (fmul (fmul (fmul (Fin 0.5) (density s)) dx) (v s ! i)) (v s ! i));
          pe = (if i < NUM_POINTS - 1
                then (let strain = fdiv (fsub (y s ! (i + 1)) (y s ! i)) dx
                      in fadd (snd acc)
                           (fmul (fmul (fmul (fmul (Fin 0.5) (tension s)) strain) strain) dx))
                else snd acc)
      in (ke, pe))"

definition computeEnergy :: "StringState \<Rightarrow> StringState" where
  "computeEnergy s =
     (let dx = fdiv (Fin 1) (Fin (real (NUM_POINTS - 1)));
          acc = for_loop 0 NUM_POINTS (energy_body s dx) (Fin 0, Fin 0)
      in s\<lparr>kineticEnergy := fst acc,
            potentialEnergy := snd acc,
            totalEnergy := fadd (fst acc) (snd acc)\<rparr>)"

subsubsection \<open>\<^verbatim>\<open>pluck\<close>\<close>

text \<open>One iteration of the loop of \<^verbatim>\<open>pluck\<close>, with the clamped position and amplitude.\<close>

definition pluck_body :: "f32 \<Rightarrow> f32 \<Rightarrow> nat \<Rightarrow> StringState \<Rightarrow> StringState" where
  "pluck_body position amplitude i s =
     (let x = fdiv (Fin (real i)) (Fin (real (NUM_POINTS - 1)));
          s1 = (if flt x position
                then s\<lparr>y := (y s)[i := fdiv (fmul amplitude x) position]\<rparr>
                else s\<lparr>y := (y s)[i := fdiv (fmul amplitude (fsub (Fin 1) x))
                                          (fsub (Fin 1) position)]\<rparr>);
          s2 = s1\<lparr>y_prev := (y_prev s1)[i := y s1 ! i]\<rparr>
      in s2\<lparr>v := (v s2)[i := Fin 0]\<rparr>)"

text \<open>The body of \<^verbatim>\<open>pluck\<close> on the selected string \<^verbatim>\<open>s\<close>.\<close>

definition pluck_string :: "f32 \<Rightarrow> f32 \<Rightarrow> StringState \<Rightarrow> StringState" where
  "pluck_string position0 amplitude0 s =
     (let position = std_max (Fin 0.1) (std_min (Fin 0.9) position0);
          amplitude = std_max (Fin 0) (std_min (Fin 1) amplitude0);
          s1 = for_loop 0 NUM_POINTS (pluck_body position amplitude) s;
          s2 = s1\<lparr>y := (y s1)[0 := Fin 0]\<rparr>;
          s3 = s2\<lparr>y_prev := (y_prev s2)[0 := Fin 0]\<rparr>
      in computeEnergy s3)"

definition pluck :: "32 word \<Rightarrow> f32 \<Rightarrow> f32 \<Rightarrow> SympatheticStrings \<Rightarrow> SympatheticStrings" where
  "pluck stringIndex position amplitude s =
     (if stringIndex = 0
      then s\<lparr>string1 := pluck_string position amplitude (string1 s)\<rparr>
      else s\<lparr>string2 := pluck_string position amplitude (string2 s)\<rparr>)"

subsubsection \<open>\<^verbatim>\<open>recordHistory\<close>\<close>

text \<open>\<^verbatim>\<open>v.erase(v.begin())\<close> drops the first element.\<close>

definition recordHistory :: "SympatheticStrings \<Rightarrow> SympatheticStrings" where
  "recordHistory s =
     (let s1 = (if HISTORY_LENGTH \<le> length (energy1History s)
                then s\<lparr>energy1History := tl (energy1History s),
                       energy2History := tl (energy2History s),
                       bridgeHistory := tl (bridgeHistory s)\<rparr>
                else s)
      in s1\<lparr>energy1History := energy1History s1 @ [totalEnergy (string1 s1)],
             energy2History := energy2History s1 @ [totalEnergy (string2 s1)],
             bridgeHistory := bridgeHistory s1 @ [bridgeY s1]\<rparr>)"

subsubsection \<open>\<^verbatim>\<open>stepOnce\<close> and \<^verbatim>\<open>step\<close>\<close>

text \<open>The right-hand side of the interior update of one string at index \<open>i\<close>.\<close>

definition wave_update :: "f32 \<Rightarrow> f32 \<Rightarrow> StringState \<Rightarrow> nat \<Rightarrow> f32" where
  "wave_update r_sq dtv s i =
     (let lap = fadd (fsub (y s ! (i + 1)) (fmul (Fin 2) (y s ! i))) (y s ! (i - 1));
          vel = fdiv (fsub (y s ! i) (y_prev s ! i)) dtv
      in fsub (fadd (fsub (fmul (Fin 2) (y s ! i)) (y_prev s ! i)) (fmul r_sq lap))
              (fmul (fmul (damping s) dtv) vel))"

text \<open>One iteration of the interior loop, on the local arrays \<open>(y1_new, y2_new)\<close>.\<close>

definition interior_body ::
  "f32 \<Rightarrow> f32 \<Rightarrow> SympatheticStrings \<Rightarrow> nat \<Rightarrow> f32 list \<times> f32 list \<Rightarrow> f32 list \<times> f32 list" where
  "interior_body r1_sq r2_sq s i ys =
     ((fst ys)[i := wave_update r1_sq (dt s) (string1 s) i],
      (snd ys)[i := wave_update r2_sq (dt s) (string2 s) i])"

text \<open>What a string "wants" at the bridge: \<^verbatim>\<open>y1_want\<close>, \<^verbatim>\<open>y2_want\<close>.\<close>

definition bridge_want :: "f32 \<Rightarrow> f32 \<Rightarrow> StringState \<Rightarrow> f32" where
  "bridge_want r_sq dtv s =
     (let n = NUM_POINTS
      in fsub (fadd (fsub (fmul (Fin 2) (y s ! (n - 1))) (y_prev s ! (n - 1)))
                    (fmul r_sq (fadd (fsub (y s ! (n - 2)) (fmul (Fin 2) (y s ! (n - 1))))
                                     (y s ! (n - 1)))))
              (fdiv (fmul (fmul (damping s) dtv) (fsub (y s ! (n - 1)) (y_prev s ! (n - 1)))) dtv))"

text \<open>The new bridge position (step 3 of \<^verbatim>\<open>stepOnce\<close>).\<close>

definition new_bridge :: "f32 \<Rightarrow> f32 \<Rightarrow> SympatheticStrings \<Rightarrow> f32" where
  "new_bridge y1_want y2_want s =
     (let totalTension = fadd (tension (string1 s)) (tension (string2 s));
          b0 = fdiv (fadd (fmul (tension (string1 s)) y1_want) (fmul (tension (string2 s)) y2_want))
                    totalTension;
          b1 = fadd (fmul (bridgeStiffness s) b0) (fmul (fsub (Fin 1) (bridgeStiffness s)) (bridgeY s));
          b2 = std_max (fneg (Fin 0.5)) (std_min (Fin 0.5) b1)
      in if \<not> isfinite b2 then Fin 0 else b2)"

text \<open>One iteration of the commit loop on one string, with its new array \<open>y_new\<close>.\<close>

definition commit_string :: "f32 \<Rightarrow> f32 list \<Rightarrow> nat \<Rightarrow> StringState \<Rightarrow> StringState" where
  "commit_string dtv y_new i s =
     (let s1 = s\<lparr>v := (v s)[i := fdiv (fsub (y_new ! i) (y s ! i)) dtv]\<rparr>;
          s2 = s1\<lparr>y_prev := (y_prev s1)[i := y s1 ! i]\<rparr>
      in s2\<lparr>y := (y s2)[i := y_new ! i]\<rparr>)"

definition commit_body ::
  "f32 list \<Rightarrow> f32 list \<Rightarrow> nat \<Rightarrow> SympatheticStrings \<Rightarrow> SympatheticStrings" where
  "commit_body y1_new y2_new i s =
     s\<lparr>string1 := commit_string (dt s) y1_new i (string1 s),
       string2 := commit_string (dt s) y2_new i (string2 s)\<rparr>"

text \<open>
  The local arrays \<^verbatim>\<open>y1_new\<close>, \<^verbatim>\<open>y2_new\<close> are declared uninitialised; every element is
  written (index 0, the interior loop, index N-1) before it is read, so they start here as
  zeros.
\<close>

definition stepOnce :: "SympatheticStrings \<Rightarrow> SympatheticStrings" where
  "stepOnce s =
     (let dx = fdiv (Fin 1) (Fin (real (NUM_POINTS - 1)));
          n = NUM_POINTS;
          r1 = fdiv (fmul (waveSpeed (string1 s)) (dt s)) dx;
          r2 = fdiv (fmul (waveSpeed (string2 s)) (dt s)) dx;
          r1_sq = fmul r1 r1;
          r2_sq = fmul r2 r2;
          y1_new = (replicate NUM_POINTS (Fin 0))[0 := Fin 0];
          y2_new = (replicate NUM_POINTS (Fin 0))[0 := Fin 0];
          ys = for_loop 1 (n - 1) (interior_body r1_sq r2_sq s) (y1_new, y2_new);
          y1_want = bridge_want r1_sq (dt s) (string1 s);
          y2_want = bridge_want r2_sq (dt s) (string2 s);
          newBridgeY = new_bridge y1_want y2_want s;
          sa = s\<lparr>bridgeV := fdiv (fsub newBridgeY (bridgeY s)) (dt s)\<rparr>;
          sb = sa\<lparr>bridgeY := newBridgeY\<rparr>;
          y1_new = (fst ys)[n - 1 := bridgeY sb];
          y2_new = (snd ys)[n - 1 := bridgeY sb];
          slope1 = fdiv (fsub (y1_new ! (n - 1)) (y1_new ! (n - 2))) dx;
          slope2 = fdiv (fsub (y2_new ! (n - 1)) (y2_new ! (n - 2))) dx;
          sc = sb\<lparr>string1 := (string1 sb)\<lparr>forceOnBridge := fmul (fneg (tension (string1 sb))) slope1\<rparr>\<rparr>;
          sd = sc\<lparr>string2 := (string2 sc)\<lparr>forceOnBridge := fmul (fneg (tension (string2 sc))) slope2\<rparr>\<rparr>;
          se = for_loop 0 n (commit_body y1_new y2_new) sd;
          sf = se\<lparr>string1 := computeEnergy (string1 se)\<rparr>;
          sg = sf\<lparr>string2 := computeEnergy (string2 sf)\<rparr>;
          sh = sg\<lparr>time := fadd (time sg) (dt sg)\<rparr>;
          si = sh\<lparr>stepCount := stepCount sh + 1\<rparr>
      in if sint (stepCount si) smod 100 = 0 then recordHistory si else si)"

text \<open>The loop of \<^verbatim>\<open>step(numSteps)\<close>: \<open>k\<close> iterations still to run.\<close>

fun step_loop :: "nat \<Rightarrow> SympatheticStrings \<Rightarrow> SympatheticStrings" where
  "step_loop 0 s = s"
| "step_loop (Suc k) s = step_loop k (stepOnce s)"

text \<open>\<^verbatim>\<open>step(int numSteps)\<close>: the loop runs \<^verbatim>\<open>max(numSteps, 0)\<close> times.\<close>

definition step :: "32 word \<Rightarrow> SympatheticStrings \<Rightarrow> SympatheticStrings" where
  "step numSteps s = step_loop (nat (sint numSteps)) s"

subsubsection \<open>Setters and \<^verbatim>\<open>reset\<close>\<close>

definition setString1Frequency :: "f32 \<Rightarrow> SympatheticStrings \<Rightarrow> SympatheticStrings" where
  "setString1Frequency freq s =
     s\<lparr>string1 := setFrequency (std_max (Fin 50) (std_min (Fin 1000) freq)) (string1 s)\<rparr>"

definition setString2Frequency :: "f32 \<Rightarrow> SympatheticStrings \<Rightarrow> SympatheticStrings" where
  "setString2Frequency freq s =
     s\<lparr>string2 := setFrequency (std_max (Fin 50) (std_min (Fin 1000) freq)) (string2 s)\<rparr>"

definition setDamping :: "f32 \<Rightarrow> SympatheticStrings \<Rightarrow> SympatheticStrings" where
  "setDamping d s =
     (let damping' = std_max (Fin 0) (std_min (Fin 0.01) d);
          s1 = s\<lparr>string1 := (string1 s)\<lparr>damping := damping'\<rparr>\<rparr>
      in s1\<lparr>string2 := (string2 s1)\<lparr>damping := damping'\<rparr>\<rparr>)"

definition setBridgeStiffness :: "f32 \<Rightarrow> SympatheticStrings \<Rightarrow> SympatheticStrings" where
  "setBridgeStiffness x s = s\<lparr>bridgeStiffness := std_max (Fin 0) (std_min (Fin 1) x)\<rparr>"

definition reset :: "SympatheticStrings \<Rightarrow> SympatheticStrings" where
  "reset s =
     (let s1 = s\<lparr>string1 := StringState_new\<rparr>;
          s2 = s1\<lparr>string2 := StringState_new\<rparr>;
          s3 = s2\<lparr>string1 := setFrequency (Fin 261.63) (string1 s2)\<rparr>;
          s4 = s3\<lparr>string2 := setFrequency (Fin 392.00) (string2 s3)\<rparr>
      in s4\<lparr>bridgeY := Fin 0, bridgeV := Fin 0, bridgeStiffness := Fin 1,
             time := Fin 0, stepCount := 0,
             energy1History := [], energy2History := [], bridgeHistory := []\<rparr>)"

subsection \<open>Reachable states\<close>

text \<open>The states a host reaches through the bound operations, with any float arguments.\<close>

inductive reachable :: "SympatheticStrings \<Rightarrow> bool" where
  r_construct: "reachable construct"
| r_pluck: "reachable s \<Longrightarrow> reachable (pluck idx position amplitude s)"
| r_step: "reachable s \<Longrightarrow> reachable (step numSteps s)"
| r_reset: "reachable s \<Longrightarrow> reachable (reset s)"
| r_freq1: "reachable s \<Longrightarrow> reachable (setString1Frequency freq s)"
| r_freq2: "reachable s \<Longrightarrow> reachable (setString2Frequency freq s)"
| r_damping: "reachable s \<Longrightarrow> reachable (setDamping d s)"
| r_stiffness: "reachable s \<Longrightarrow> reachable (setBridgeStiffness x s)"

subsection \<open>\<^verbatim>\<open>pluck\<close> in binary32\<close>

text \<open>
  The operations of the type \<^verbatim>\<open>float\<close> above do not round. What \<^verbatim>\<open>pluck\<close> writes is
  decided by rounding, so \<^verbatim>\<open>pluck\<close> and \<^verbatim>\<open>computeEnergy\<close> are embedded a second time,
  with every operation rounded as binary32 rounds it: to the nearest number with a 24-bit
  significand, or to the nearest multiple of \<^verbatim>\<open>2^-149\<close> where the numbers are subnormal,
  a tie going to the even neighbour.
\<close>

text \<open>Rounding to the nearest integer, ties to even.\<close>

definition rne :: "real \<Rightarrow> int" where
  "rne z = (let f = \<lfloor>z\<rfloor>
            in if z - of_int f < 1 / 2 then f
               else if 1 / 2 < z - of_int f then f + 1
               else if even f then f else f + 1)"

text \<open>The binary exponent of the unit in the last place at \<open>r\<close>, and \<open>r\<close> rounded to binary32.\<close>

definition expo32 :: "real \<Rightarrow> int" where
  "expo32 r = max (\<lfloor>log 2 \<bar>r\<bar>\<rfloor> - 23) (- 149)"

definition round32 :: "real \<Rightarrow> real" where
  "round32 r =
     (if r = 0 then 0
      else of_int (rne (r / 2 powr of_int (expo32 r))) * 2 powr of_int (expo32 r))"

text \<open>A result rounded; at the overflow threshold and beyond it is an infinity.\<close>

fun rnd :: "f32 \<Rightarrow> f32" where
  "rnd (Fin r) = ovf (round32 r)"
| "rnd PInf = PInf"
| "rnd NInf = NInf"
| "rnd NaN = NaN"

text \<open>The four operations, rounded.\<close>

definition fadd32 :: "f32 \<Rightarrow> f32 \<Rightarrow> f32" where
  "fadd32 a b = rnd (fadd a b)"

definition fsub32 :: "f32 \<Rightarrow> f32 \<Rightarrow> f32" where
  "fsub32 a b = rnd (fsub a b)"

definition fmul32 :: "f32 \<Rightarrow> f32 \<Rightarrow> f32" where
  "fmul32 a b = rnd (fmul a b)"

definition fdiv32 :: "f32 \<Rightarrow> f32 \<Rightarrow> f32" where
  "fdiv32 a b = rnd (fdiv a b)"

text \<open>\<^verbatim>\<open>computeEnergy\<close> and \<^verbatim>\<open>pluck\<close> as above, on the rounded operations.\<close>

definition energy_body32 :: "StringState \<Rightarrow> f32 \<Rightarrow> nat \<Rightarrow> f32 \<times> f32 \<Rightarrow> f32 \<times> f32" where
  "energy_body32 s dx i acc =
     (let ke = fadd32 (fst acc)
                 (fmul32 (fmul32 (fmul32 (fmul32 (Fin 0.5) (density s)) dx) (v s ! i)) (v s ! i));
          pe = (if i < NUM_POINTS - 1
                then (let strain = fdiv32 (fsub32 (y s ! (i + 1)) (y s ! i)) dx
                      in fadd32 (snd acc)
                           (fmul32 (fmul32 (fmul32 (fmul32 (Fin 0.5) (tension s)) strain) strain) dx))
                else snd acc)
      in (ke, pe))"

definition computeEnergy32 :: "StringState \<Rightarrow> StringState" where
  "computeEnergy32 s =
     (let dx = fdiv32 (Fin 1) (Fin (real (NUM_POINTS - 1)));
          acc = for_loop 0 NUM_POINTS (energy_body32 s dx) (Fin 0, Fin 0)
      in s\<lparr>kineticEnergy := fst acc,
            potentialEnergy := snd acc,
            totalEnergy := fadd32 (fst acc) (snd acc)\<rparr>)"

definition pluck_body32 :: "f32 \<Rightarrow> f32 \<Rightarrow> nat \<Rightarrow> StringState \<Rightarrow> StringState" where
  "pluck_body32 position amplitude i s =
     (let x = fdiv32 (Fin (real i)) (Fin (real (NUM_POINTS - 1)));
          s1 = (if flt x position
                then s\<lparr>y := (y s)[i := fdiv32 (fmul32 amplitude x) position]\<rparr>
                else s\<lparr>y := (y s)[i := fdiv32 (fmul32 amplitude (fsub32 (Fin 1) x))
                                          (fsub32 (Fin 1) position)]\<rparr>);
          s2 = s1\<lparr>y_prev := (y_prev s1)[i := y s1 ! i]\<rparr>
      in s2\<lparr>v := (v s2)[i := Fin 0]\<rparr>)"

definition pluck_string32 :: "f32 \<Rightarrow> f32 \<Rightarrow> StringState \<Rightarrow> StringState" where
  "pluck_string32 position0 amplitude0 s =
     (let position = std_max (Fin 0.1) (std_min (Fin 0.9) position0);
          amplitude = std_max (Fin 0) (std_min (Fin 1) amplitude0);
          s1 = for_loop 0 NUM_POINTS (pluck_body32 position amplitude) s;
          s2 = s1\<lparr>y := (y s1)[0 := Fin 0]\<rparr>;
          s3 = s2\<lparr>y_prev := (y_prev s2)[0 := Fin 0]\<rparr>
      in computeEnergy32 s3)"

definition pluck32 :: "32 word \<Rightarrow> f32 \<Rightarrow> f32 \<Rightarrow> SympatheticStrings \<Rightarrow> SympatheticStrings" where
  "pluck32 stringIndex position amplitude s =
     (if stringIndex = 0
      then s\<lparr>string1 := pluck_string32 position amplitude (string1 s)\<rparr>
      else s\<lparr>string2 := pluck_string32 position amplitude (string2 s)\<rparr>)"

subsection \<open>Well-formed states and the invariant of the reachable ones\<close>

text \<open>A \<^verbatim>\<open>std::array<float, NUM_POINTS>\<close> has \<^verbatim>\<open>NUM_POINTS\<close> elements.\<close>

definition wf_string :: "StringState \<Rightarrow> bool" where
  "wf_string st \<longleftrightarrow>
     length (y st) = NUM_POINTS \<and> length (y_prev st) = NUM_POINTS \<and> length (v st) = NUM_POINTS"

definition wf :: "SympatheticStrings \<Rightarrow> bool" where
  "wf s \<longleftrightarrow> wf_string (string1 s) \<and> wf_string (string2 s)"

text \<open>Never negative: \<^verbatim>\<open>x < 0\<close> is false, so \<open>x\<close> is a number \<open>\<ge> 0\<close>, \<open>+inf\<close> or a NaN.\<close>

definition nonneg_f :: "f32 \<Rightarrow> bool" where
  "nonneg_f x \<longleftrightarrow> \<not> flt x (Fin 0)"

text \<open>
  What every reachable string satisfies, whether its samples have overflowed or not: the
  fixed left end, a finite positive tension, the density and length of the constructor, and
  energies that are never negative.
\<close>

definition string_ok :: "StringState \<Rightarrow> bool" where
  "string_ok st \<longleftrightarrow>
     wf_string st \<and> y st ! 0 = Fin 0 \<and>
     isfinite (tension st) \<and> 0 < val (tension st) \<and> val (tension st) \<le> 4000 \<and>
     density st = Fin 0.001 \<and> length_s st = Fin 1 \<and>
     nonneg_f (kineticEnergy st) \<and> nonneg_f (potentialEnergy st)"

definition Inv :: "SympatheticStrings \<Rightarrow> bool" where
  "Inv s \<longleftrightarrow>
     string_ok (string1 s) \<and> string_ok (string2 s) \<and>
     dt s = Fin (1 / 352800) \<and>
     isfinite (bridgeY s) \<and> \<bar>val (bridgeY s)\<bar> \<le> 1 / 2 \<and>
     isfinite (bridgeStiffness s) \<and>
     length (energy2History s) = length (energy1History s) \<and>
     length (bridgeHistory s) = length (energy1History s) \<and>
     length (energy1History s) \<le> HISTORY_LENGTH"

subsection \<open>The loops in closed form\<close>

text \<open>
  The names below abbreviate sub-expressions of \<^verbatim>\<open>pluck\<close>, \<^verbatim>\<open>stepOnce\<close> and
  \<^verbatim>\<open>computeEnergy\<close>; the lemmas \<open>pluck_string_eq\<close>, \<open>stepOnce_eq\<close> and
  \<open>computeEnergy_fsum\<close> relate them to the loops of the source.
\<close>

definition dx_c :: f32 where
  "dx_c = fdiv (Fin 1) (Fin (real (NUM_POINTS - 1)))"

text \<open>The value the loop of \<^verbatim>\<open>pluck\<close> stores at index \<open>i\<close>, and the whole profile.\<close>

definition pluck_val :: "f32 \<Rightarrow> f32 \<Rightarrow> nat \<Rightarrow> f32" where
  "pluck_val position amplitude i =
     (let x = fdiv (Fin (real i)) (Fin (real (NUM_POINTS - 1)))
      in if flt x position then fdiv (fmul amplitude x) position
         else fdiv (fmul amplitude (fsub (Fin 1) x)) (fsub (Fin 1) position))"

definition pluck_profile :: "f32 \<Rightarrow> f32 \<Rightarrow> f32 list" where
  "pluck_profile position amplitude = map (pluck_val position amplitude) [0..<NUM_POINTS]"

text \<open>The array \<^verbatim>\<open>y_new\<close> of one string once the bridge position \<open>b\<close> is stored in it.\<close>

definition y_new_of :: "f32 \<Rightarrow> f32 \<Rightarrow> StringState \<Rightarrow> f32 \<Rightarrow> f32 list" where
  "y_new_of r_sq d st b =
     map (\<lambda>j. if j = 0 then Fin 0 else if j < NUM_POINTS - 1 then wave_update r_sq d st j else b)
       [0..<NUM_POINTS]"

text \<open>The velocities the commit loop stores.\<close>

definition commit_v :: "f32 \<Rightarrow> f32 list \<Rightarrow> StringState \<Rightarrow> f32 list" where
  "commit_v d yn st = map (\<lambda>i. fdiv (fsub (yn ! i) (y st ! i)) d) [0..<NUM_POINTS]"

text \<open>\<^verbatim>\<open>r1_sq\<close>, \<^verbatim>\<open>r2_sq\<close>: the squared Courant number of a string.\<close>

definition courant_sq :: "f32 \<Rightarrow> StringState \<Rightarrow> f32" where
  "courant_sq d st = (let r = fdiv (fmul (waveSpeed st) d) dx_c in fmul r r)"

definition bridge_next :: "SympatheticStrings \<Rightarrow> f32" where
  "bridge_next s =
     new_bridge (bridge_want (courant_sq (dt s) (string1 s)) (dt s) (string1 s))
                (bridge_want (courant_sq (dt s) (string2 s)) (dt s) (string2 s)) s"

text \<open>
  The tension-weighted average of the two candidates, and its blend with the old bridge
  position: the value of \<^verbatim>\<open>newBridgeY\<close> before the clamp.
\<close>

definition bridge_candidate :: "SympatheticStrings \<Rightarrow> f32" where
  "bridge_candidate s =
     fdiv (fadd (fmul (tension (string1 s))
                   (bridge_want (courant_sq (dt s) (string1 s)) (dt s) (string1 s)))
                (fmul (tension (string2 s))
                   (bridge_want (courant_sq (dt s) (string2 s)) (dt s) (string2 s))))
          (fadd (tension (string1 s)) (tension (string2 s)))"

definition bridge_blend :: "SympatheticStrings \<Rightarrow> f32" where
  "bridge_blend s =
     fadd (fmul (bridgeStiffness s) (bridge_candidate s))
          (fmul (fsub (Fin 1) (bridgeStiffness s)) (bridgeY s))"

definition string_next :: "f32 \<Rightarrow> f32 \<Rightarrow> StringState \<Rightarrow> StringState" where
  "string_next d b st =
     (let yn = y_new_of (courant_sq d st) d st b
      in computeEnergy
           (st\<lparr>forceOnBridge :=
                  fmul (fneg (tension st))
                       (fdiv (fsub (yn ! (NUM_POINTS - 1)) (yn ! (NUM_POINTS - 2))) dx_c),
               v := commit_v d yn st, y_prev := y st, y := yn\<rparr>))"

text \<open>The state of \<^verbatim>\<open>stepOnce\<close> before the history is looked at.\<close>

definition step_core :: "SympatheticStrings \<Rightarrow> SympatheticStrings" where
  "step_core s =
     s\<lparr>bridgeV := fdiv (fsub (bridge_next s) (bridgeY s)) (dt s),
       bridgeY := bridge_next s,
       string1 := string_next (dt s) (bridge_next s) (string1 s),
       string2 := string_next (dt s) (bridge_next s) (string2 s),
       time := fadd (time s) (dt s),
       stepCount := stepCount s + 1\<rparr>"

text \<open>The summands of the two accumulators of \<^verbatim>\<open>computeEnergy\<close>.\<close>

definition ke_term :: "StringState \<Rightarrow> f32 \<Rightarrow> nat \<Rightarrow> f32" where
  "ke_term st dx i = fmul (fmul (fmul (fmul (Fin 0.5) (density st)) dx) (v st ! i)) (v st ! i)"

definition pe_term :: "StringState \<Rightarrow> f32 \<Rightarrow> nat \<Rightarrow> f32" where
  "pe_term st dx i =
     (let strain = fdiv (fsub (y st ! (i + 1)) (y st ! i)) dx
      in fmul (fmul (fmul (fmul (Fin 0.5) (tension st)) strain) strain) dx)"

text \<open>The same names for the loops of \<^verbatim>\<open>pluck\<close> and \<^verbatim>\<open>computeEnergy\<close> in binary32.\<close>

definition pluck_val32 :: "f32 \<Rightarrow> f32 \<Rightarrow> nat \<Rightarrow> f32" where
  "pluck_val32 position amplitude i =
     (let x = fdiv32 (Fin (real i)) (Fin (real (NUM_POINTS - 1)))
      in if flt x position then fdiv32 (fmul32 amplitude x) position
         else fdiv32 (fmul32 amplitude (fsub32 (Fin 1) x)) (fsub32 (Fin 1) position))"

definition pluck_profile32 :: "f32 \<Rightarrow> f32 \<Rightarrow> f32 list" where
  "pluck_profile32 position amplitude = map (pluck_val32 position amplitude) [0..<NUM_POINTS]"

definition dx32 :: f32 where
  "dx32 = fdiv32 (Fin 1) (Fin (real (NUM_POINTS - 1)))"

definition ke_term32 :: "StringState \<Rightarrow> nat \<Rightarrow> f32" where
  "ke_term32 st i =
     fmul32 (fmul32 (fmul32 (fmul32 (Fin 0.5) (density st)) dx32) (v st ! i)) (v st ! i)"

definition pe_term32 :: "StringState \<Rightarrow> nat \<Rightarrow> f32" where
  "pe_term32 st i =
     (let strain = fdiv32 (fsub32 (y st ! (i + 1)) (y st ! i)) dx32
      in fmul32 (fmul32 (fmul32 (fmul32 (Fin 0.5) (tension st)) strain) strain) dx32)"

definition kinetic_fsum32 :: "StringState \<Rightarrow> f32" where
  "kinetic_fsum32 st = foldl fadd32 (Fin 0) (map (ke_term32 st) [0..<NUM_POINTS])"

definition potential_fsum32 :: "StringState \<Rightarrow> f32" where
  "potential_fsum32 st = foldl fadd32 (Fin 0) (map (pe_term32 st) [0..<NUM_POINTS - 1])"

subsection \<open>The formulas of the specification\<close>

text \<open>
  The energies as the specification writes them, over the reals, with \<open>dx = 1/199\<close>:
  kinetic \<open>\<Sum> 0.5\<cdot>density\<cdot>dx\<cdot>v[i]\<^sup>2\<close> over all \<open>i\<close>, potential
  \<open>\<Sum> 0.5\<cdot>tension\<cdot>((y[i+1] - y[i])/dx)\<^sup>2\<cdot>dx\<close> over \<open>i < N - 1\<close>.
\<close>

definition kinetic_sum :: "StringState \<Rightarrow> real" where
  "kinetic_sum st = (\<Sum>i<NUM_POINTS. 0.5 * val (density st) * (1 / 199) * (val (v st ! i))\<^sup>2)"

definition potential_sum :: "StringState \<Rightarrow> real" where
  "potential_sum st =
     (\<Sum>i<NUM_POINTS - 1.
        0.5 * val (tension st) * ((val (y st ! (i + 1)) - val (y st ! i)) / (1 / 199))\<^sup>2 * (1 / 199))"

text \<open>
  The same sums in the arithmetic of the program, added from index 0 upwards: what the
  fields \<^verbatim>\<open>kineticEnergy\<close> and \<^verbatim>\<open>potentialEnergy\<close> hold once \<^verbatim>\<open>computeEnergy\<close> has run.
\<close>

definition kinetic_fsum :: "StringState \<Rightarrow> f32" where
  "kinetic_fsum st = foldl fadd (Fin 0) (map (ke_term st dx_c) [0..<NUM_POINTS])"

definition potential_fsum :: "StringState \<Rightarrow> f32" where
  "potential_fsum st = foldl fadd (Fin 0) (map (pe_term st dx_c) [0..<NUM_POINTS - 1])"

text \<open>
  The stored energies of a string are the sums over its current buffers: the float sums
  always, and the real sums of the specification whenever the stored value is finite.
\<close>

definition energy_ok :: "StringState \<Rightarrow> bool" where
  "energy_ok st \<longleftrightarrow>
     kineticEnergy st = kinetic_fsum st \<and>
     potentialEnergy st = potential_fsum st \<and>
     totalEnergy st = fadd (kinetic_fsum st) (potential_fsum st) \<and>
     (isfinite (kineticEnergy st) \<longrightarrow> kineticEnergy st = Fin (kinetic_sum st)) \<and>
     (isfinite (potentialEnergy st) \<longrightarrow> potentialEnergy st = Fin (potential_sum st)) \<and>
     (isfinite (totalEnergy st) \<longrightarrow>
        totalEnergy st = Fin (kinetic_sum st + potential_sum st))"

text \<open>
  The interior update as the specification writes it, over the reals:
  \<open>2\<cdot>y[i] - y_prev[i] + r\<^sup>2\<cdot>(y[i+1] - 2\<cdot>y[i] + y[i-1]) - damping\<cdot>dt\<cdot>v[i]\<close> with
  \<open>r = waveSpeed\<cdot>dt/dx\<close>, \<open>dx = 1/199\<close> and \<open>v[i] = (y[i] - y_prev[i])/dt\<close>.
\<close>

definition wave_formula :: "real \<Rightarrow> StringState \<Rightarrow> nat \<Rightarrow> real" where
  "wave_formula dtr st i =
     (let dx = 1 / 199;
          r = val (waveSpeed st) * dtr / dx;
          vi = (val (y st ! i) - val (y_prev st ! i)) / dtr
      in 2 * val (y st ! i) - val (y_prev st ! i)
         + r\<^sup>2 * (val (y st ! (i + 1)) - 2 * val (y st ! i) + val (y st ! (i - 1)))
         - val (damping st) * dtr * vi)"

text \<open>
  The candidate of a string for its rightmost sample (the same formula, the Laplacian
  being \<open>r\<^sup>2\<cdot>(y[N-2] - y[N-1])\<close>), and the bridge position of the specification: the
  tension-weighted average of the candidates, blended with the old position by the
  stiffness and clamped to \<open>[-0.5, 0.5]\<close>.
\<close>

definition want_formula :: "real \<Rightarrow> StringState \<Rightarrow> real" where
  "want_formula dtr st =
     (let dx = 1 / 199;
          r = val (waveSpeed st) * dtr / dx;
          vN = (val (y st ! 199) - val (y_prev st ! 199)) / dtr
      in 2 * val (y st ! 199) - val (y_prev st ! 199)
         + r\<^sup>2 * (val (y st ! 198) - val (y st ! 199))
         - val (damping st) * dtr * vN)"

definition bridge_formula :: "SympatheticStrings \<Rightarrow> real" where
  "bridge_formula s =
     (let T1 = val (tension (string1 s)); T2 = val (tension (string2 s));
          want1 = want_formula (val (dt s)) (string1 s);
          want2 = want_formula (val (dt s)) (string2 s);
          candidate = (T1 * want1 + T2 * want2) / (T1 + T2);
          blended = val (bridgeStiffness s) * candidate
                    + (1 - val (bridgeStiffness s)) * val (bridgeY s)
      in max (- 0.5) (min 0.5 blended))"

text \<open>The string \<^verbatim>\<open>pluck\<close> selects: \<^verbatim>\<open>(stringIndex == 0) ? string1 : string2\<close>.\<close>

definition selected :: "32 word \<Rightarrow> SympatheticStrings \<Rightarrow> StringState" where
  "selected stringIndex s = (if stringIndex = 0 then string1 s else string2 s)"

text \<open>
  The bridge constraint: both rightmost samples are the bridge position, as values and
  under the comparison \<^verbatim>\<open>==\<close> of floats (which a NaN would fail).
\<close>

definition bridge_shared :: "SympatheticStrings \<Rightarrow> bool" where
  "bridge_shared s \<longleftrightarrow>
     y (string1 s) ! (NUM_POINTS - 1) = bridgeY s \<and>
     y (string2 s) ! (NUM_POINTS - 1) = bridgeY s \<and>
     feq (y (string1 s) ! (NUM_POINTS - 1)) (y (string2 s) ! (NUM_POINTS - 1)) \<and>
     feq (y (string1 s) ! (NUM_POINTS - 1)) (bridgeY s) \<and>
     feq (y (string2 s) ! (NUM_POINTS - 1)) (bridgeY s)"

section \<open>Properties\<close>

subsection \<open>Float arithmetic and lists\<close>

lemma for_loop_fold: "for_loop i n body s = fold body [i..<n] s"
proof (induction i n body s rule: for_loop.induct)
  case (1 i n body s)
  show ?case
  proof (cases "i < n")
    case True
    then have "[i..<n] = i # [Suc i..<n]" by (simp add: upt_conv_Cons)
    with True 1 show ?thesis by (simp add: for_loop.simps [of i])
  next
    case False
    then show ?thesis by (simp add: for_loop.simps [of i])
  qed
qed

lemma isfinite_conv: "isfinite a \<longleftrightarrow> a = Fin (val a)"
  by (cases a) simp_all

lemma isfinite_fneg [simp]: "isfinite (fneg a) = isfinite a"
  by (cases a) simp_all

lemma val_fneg [simp]: "val (fneg a) = - val a"
  by (cases a) simp_all

lemma FLT_OVF_big: "10 ^ 30 < FLT_OVF"
  by (simp add: FLT_OVF_def)

lemma ovf_small: "\<bar>r\<bar> \<le> 10 ^ 30 \<Longrightarrow> ovf r = Fin r"
  using FLT_OVF_big by (auto simp: ovf_def abs_le_iff)

lemma ovf_zero [simp]: "ovf 0 = Fin 0"
  by (simp add: ovf_small)

lemma ovf_finite: "isfinite (ovf r) \<Longrightarrow> ovf r = Fin r"
  by (simp add: ovf_def split: if_splits)

lemma ovf_nonneg: "0 \<le> r \<Longrightarrow> ovf r = Fin r \<or> ovf r = PInf"
  using FLT_OVF_big by (auto simp: ovf_def)

lemma fsub_Fin [simp]: "fsub (Fin a) (Fin b) = ovf (a - b)"
  by (simp add: fsub_def)

text \<open>A finite result comes from finite operands and is the exact result.\<close>

lemma fadd_finiteD:
  "isfinite (fadd a b) \<Longrightarrow> isfinite a \<and> isfinite b \<and> fadd a b = Fin (val a + val b)"
  by (cases a; cases b) (simp_all add: ovf_finite)

lemma fsub_finiteD:
  "isfinite (fsub a b) \<Longrightarrow> isfinite a \<and> isfinite b \<and> fsub a b = Fin (val a - val b)"
  by (cases a; cases b) (simp_all add: ovf_finite fsub_def)

lemma fmul_finiteD:
  "isfinite (fmul a b) \<Longrightarrow> isfinite a \<and> isfinite b \<and> fmul a b = Fin (val a * val b)"
  by (cases a; cases b) (simp_all add: ovf_finite split: if_splits)

lemma fdiv_finiteD:
  "isfinite (fdiv a b) \<Longrightarrow> isfinite b \<Longrightarrow>
   isfinite a \<and> val b \<noteq> 0 \<and> fdiv a b = Fin (val a / val b)"
  by (cases a; cases b) (simp_all add: ovf_finite split: if_splits)

text \<open>A NaN operand gives a NaN.\<close>

lemma fadd_NaN [simp]: "fadd a NaN = NaN"
  by (cases a) simp_all

lemma fmul_NaN [simp]: "fmul a NaN = NaN"
  by (cases a) simp_all

lemma fdiv_NaN [simp]: "fdiv a NaN = NaN"
  by (cases a) simp_all

lemma fsub_NaN [simp]: "fsub NaN a = NaN" "fsub a NaN = NaN"
  by (simp_all add: fsub_def)

text \<open>What is never negative.\<close>

lemma nonneg_f_simps [simp]:
  "nonneg_f (Fin r) = (0 \<le> r)" "nonneg_f PInf" "\<not> nonneg_f NInf" "nonneg_f NaN"
  by (auto simp: nonneg_f_def)

lemma nonneg_f_ovf: "0 \<le> r \<Longrightarrow> nonneg_f (ovf r)"
  using ovf_nonneg [of r] by auto

lemma nonneg_f_fadd: "nonneg_f a \<Longrightarrow> nonneg_f b \<Longrightarrow> nonneg_f (fadd a b)"
  by (cases a; cases b) (simp_all add: nonneg_f_ovf)

lemma nonneg_f_square:
  assumes "0 \<le> c"
  shows "nonneg_f (fmul (fmul (Fin c) x) x)"
proof (cases x)
  case (Fin r)
  have pos: "0 < FLT_OVF" using FLT_OVF_big by simp
  consider (fin) "\<not> FLT_OVF \<le> c * r" "\<not> c * r \<le> - FLT_OVF"
    | (up) "FLT_OVF \<le> c * r" | (down) "c * r \<le> - FLT_OVF"
    by blast
  then show ?thesis
  proof cases
    case fin
    have "0 \<le> c * r * r" using assms by (simp add: mult.assoc)
    then show ?thesis using fin Fin by (simp add: ovf_def nonneg_f_ovf)
  next
    case up
    then have "0 < c * r" using pos by linarith
    then have "0 < r" using assms by (simp add: zero_less_mult_iff)
    then show ?thesis using up Fin by (simp add: ovf_def)
  next
    case down
    then have "c * r < 0" using pos by linarith
    then have "r < 0" using assms by (simp add: mult_less_0_iff)
    moreover have "\<not> FLT_OVF \<le> c * r" using down pos by linarith
    ultimately show ?thesis using down Fin by (simp add: ovf_def)
  qed
next
  case PInf
  then show ?thesis using assms by simp
next
  case NInf
  then show ?thesis using assms by simp
next
  case NaN
  then show ?thesis by simp
qed

lemma nonneg_f_scale: "nonneg_f a \<Longrightarrow> 0 < d \<Longrightarrow> nonneg_f (fmul a (Fin d))"
  by (cases a) (simp_all add: nonneg_f_ovf)

lemma nonneg_f_foldl:
  "nonneg_f a \<Longrightarrow> (\<And>x. x \<in> set xs \<Longrightarrow> nonneg_f x) \<Longrightarrow> nonneg_f (foldl fadd a xs)"
  by (induction xs arbitrary: a) (simp_all add: nonneg_f_fadd)

lemma std_clamp:
  assumes "lo \<le> hi"
  shows "isfinite (std_max (Fin lo) (std_min (Fin hi) x))"
    and "lo \<le> val (std_max (Fin lo) (std_min (Fin hi) x))"
    and "val (std_max (Fin lo) (std_min (Fin hi) x)) \<le> hi"
  using assms by (cases x; simp add: std_max_def std_min_def)+

lemma std_clamp_Fin:
  "lo \<le> hi \<Longrightarrow> std_max (Fin lo) (std_min (Fin hi) (Fin x)) = Fin (max lo (min hi x))"
  by (simp add: std_max_def std_min_def max_def min_def)

lemma fold_update_length:
  "length (fold (\<lambda>i xs. xs[i := g i]) is xs) = length xs"
  by (induction "is" arbitrary: xs) simp_all

lemma fold_update_nth:
  "j < length xs \<Longrightarrow>
   fold (\<lambda>i xs. xs[i := g i]) [m..<n] xs ! j = (if m \<le> j \<and> j < n then g j else xs ! j)"
proof (induction n)
  case 0
  then show ?case by simp
next
  case (Suc n)
  show ?case
  proof (cases "m \<le> n")
    case True
    then show ?thesis using Suc by (auto simp: fold_update_length nth_list_update less_Suc_eq)
  next
    case False
    then show ?thesis by auto
  qed
qed

lemma take_drop_update:
  "k < length A \<Longrightarrow> length B = length A \<Longrightarrow>
   (take k A @ drop k B)[k := A ! k] = take (Suc k) A @ drop (Suc k) B"
  by (rule nth_equalityI) (auto simp: nth_list_update nth_append min_def)

subsection \<open>The loops of \<^verbatim>\<open>pluck\<close> and \<^verbatim>\<open>stepOnce\<close> in closed form\<close>

lemma commit_string_fold:
  assumes "wf_string st" "length yn = NUM_POINTS" "k \<le> NUM_POINTS"
  shows "fold (commit_string d yn) [0..<k] st =
         st\<lparr>v := take k (commit_v d yn st) @ drop k (v st),
            y_prev := take k (y st) @ drop k (y_prev st),
            y := take k yn @ drop k (y st)\<rparr>"
  using assms(3)
proof (induction k)
  case 0
  then show ?case by simp
next
  case (Suc k)
  then have k: "k < NUM_POINTS" by simp
  have nth_v: "commit_v d yn st ! k = fdiv (fsub (yn ! k) (y st ! k)) d"
    using k by (simp add: commit_v_def)
  have len: "length (commit_v d yn st) = NUM_POINTS" by (simp add: commit_v_def)
  show ?case using Suc k assms(1,2) len
    by (simp add: commit_string_def Let_def wf_string_def nth_append nth_v [symmetric]
        take_drop_update)
qed

lemma commit_string_all:
  assumes "wf_string st" "length yn = NUM_POINTS"
  shows "fold (commit_string d yn) [0..<NUM_POINTS] st =
         st\<lparr>v := commit_v d yn st, y_prev := y st, y := yn\<rparr>"
  using commit_string_fold [OF assms, of NUM_POINTS d] assms
  by (simp add: wf_string_def commit_v_def)

lemma commit_body_fold:
  "fold (commit_body y1n y2n) is s =
   s\<lparr>string1 := fold (commit_string (dt s) y1n) is (string1 s),
     string2 := fold (commit_string (dt s) y2n) is (string2 s)\<rparr>"
  by (induction "is" arbitrary: s) (simp_all add: commit_body_def)

lemma interior_body_fold:
  "fold (interior_body r1 r2 s) is ys =
   (fold (\<lambda>i xs. xs[i := wave_update r1 (dt s) (string1 s) i]) is (fst ys),
    fold (\<lambda>i xs. xs[i := wave_update r2 (dt s) (string2 s) i]) is (snd ys))"
  by (induction "is" arbitrary: ys) (simp_all add: interior_body_def)

lemma pluck_body_eq:
  "pluck_body p a i s =
   s\<lparr>y := (y s)[i := pluck_val p a i],
     y_prev := (y_prev s)[i := (y s)[i := pluck_val p a i] ! i],
     v := (v s)[i := Fin 0]\<rparr>"
  by (simp add: pluck_body_def pluck_val_def Let_def)

lemma pluck_fold:
  assumes "wf_string st" "k \<le> NUM_POINTS"
  shows "fold (pluck_body p a) [0..<k] st =
         st\<lparr>y := take k (pluck_profile p a) @ drop k (y st),
            y_prev := take k (pluck_profile p a) @ drop k (y_prev st),
            v := take k (replicate NUM_POINTS (Fin 0)) @ drop k (v st)\<rparr>"
  using assms(2)
proof (induction k)
  case 0
  then show ?case by simp
next
  case (Suc k)
  then have k: "k < NUM_POINTS" by simp
  have nth_p: "pluck_profile p a ! k = pluck_val p a k"
    using k by (simp add: pluck_profile_def)
  have nth_z: "replicate NUM_POINTS (Fin 0) ! k = Fin 0"
    using k by simp
  have len: "length (pluck_profile p a) = NUM_POINTS" by (simp add: pluck_profile_def)
  have upd: "(take k (replicate NUM_POINTS (Fin 0)) @ drop k (v st))[k := Fin 0] =
             take (Suc k) (replicate NUM_POINTS (Fin 0)) @ drop (Suc k) (v st)"
    using take_drop_update [of k "replicate NUM_POINTS (Fin 0)" "v st"] k assms(1)
    by (simp add: wf_string_def)
  show ?case using Suc k assms(1) len upd
    by (simp add: pluck_body_eq wf_string_def nth_append nth_p [symmetric] take_drop_update
        del: replicate.simps take_replicate)
qed

lemma pluck_loop_eq:
  assumes "wf_string st"
  shows "for_loop 0 NUM_POINTS (pluck_body p a) st =
         st\<lparr>y := pluck_profile p a, y_prev := pluck_profile p a,
            v := replicate NUM_POINTS (Fin 0)\<rparr>"
  using pluck_fold [OF assms, of NUM_POINTS p a] assms
  by (simp add: for_loop_fold wf_string_def pluck_profile_def)

lemma interior_loop_eq:
  "(fold (\<lambda>i xs. xs[i := wave_update r_sq d st i]) [1..<NUM_POINTS - 1]
      ((replicate NUM_POINTS (Fin 0))[0 := Fin 0]))[NUM_POINTS - 1 := b] = y_new_of r_sq d st b"
  by (rule nth_equalityI)
     (auto simp: y_new_of_def fold_update_length fold_update_nth nth_list_update NUM_POINTS_def)

lemma length_y_new_of [simp]: "length (y_new_of r d st b) = NUM_POINTS"
  by (simp add: y_new_of_def)

lemma computeEnergy_frame [simp]:
  "y (computeEnergy st) = y st" "y_prev (computeEnergy st) = y_prev st"
  "v (computeEnergy st) = v st" "tension (computeEnergy st) = tension st"
  "density (computeEnergy st) = density st" "damping (computeEnergy st) = damping st"
  "waveSpeed (computeEnergy st) = waveSpeed st" "length_s (computeEnergy st) = length_s st"
  "frequency (computeEnergy st) = frequency st" "forceOnBridge (computeEnergy st) = forceOnBridge st"
  by (simp_all add: computeEnergy_def Let_def)

lemma courant_sq_eq:
  "fmul (fdiv (fmul (waveSpeed st) d) dx_c) (fdiv (fmul (waveSpeed st) d) dx_c) = courant_sq d st"
  by (simp add: courant_sq_def Let_def)

lemma sel_simps:
  "dt (s\<lparr>bridgeV := a\<rparr>) = dt s" "bridgeY (s\<lparr>bridgeV := a\<rparr>) = bridgeY s"
  "bridgeY (s\<lparr>bridgeY := b\<rparr>) = b" "string1 (s\<lparr>bridgeY := b\<rparr>) = string1 s"
  "string1 (s\<lparr>bridgeV := a\<rparr>) = string1 s"
  "string2 (s\<lparr>bridgeY := b\<rparr>) = string2 s"
  "string2 (s\<lparr>bridgeV := a\<rparr>) = string2 s"
  "string2 (s\<lparr>string1 := c\<rparr>) = string2 s"
  "string1 (s\<lparr>string1 := c\<rparr>) = c"
  "string2 (s\<lparr>string2 := c\<rparr>) = c"
  "string1 (s\<lparr>string2 := c\<rparr>) = string1 s"
  "dt (s\<lparr>bridgeY := b\<rparr>) = dt s"
  "dt (s\<lparr>string1 := c\<rparr>) = dt s"
  "dt (s\<lparr>string2 := c\<rparr>) = dt s"
  by simp_all

lemma stepOnce_eq:
  assumes "wf s"
  shows "stepOnce s =
         (if sint (stepCount s + 1) smod 100 = 0 then recordHistory (step_core s) else step_core s)"
proof -
  have w1: "wf_string (string1 s)" and w2: "wf_string (string2 s)"
    using assms by (simp_all add: wf_def)
  have w1': "wf_string (string1 s\<lparr>forceOnBridge := f\<rparr>)" for f
    using w1 by (simp add: wf_string_def)
  have w2': "wf_string (string2 s\<lparr>forceOnBridge := f\<rparr>)" for f
    using w2 by (simp add: wf_string_def)
  have core: "stepCount (step_core s) = stepCount s + 1" by (simp add: step_core_def)
  show ?thesis
    unfolding stepOnce_def Let_def for_loop_fold interior_body_fold commit_body_fold fst_conv snd_conv
    unfolding dx_c_def [symmetric] courant_sq_eq sel_simps interior_loop_eq
    unfolding bridge_next_def [symmetric]
    apply (simp only: sel_simps commit_string_all w1' w2' length_y_new_of)
    apply (simp add: step_core_def string_next_def Let_def commit_v_def)
    done
qed

subsection \<open>The fields after a step, and the bridge constraint\<close>

lemma new_bridge_clamped:
  "isfinite (new_bridge a b s)" "\<bar>val (new_bridge a b s)\<bar> \<le> 1 / 2"
proof -
  let ?b1 = "fadd (fmul (bridgeStiffness s)
                 (fdiv (fadd (fmul (tension (string1 s)) a) (fmul (tension (string2 s)) b))
                    (fadd (tension (string1 s)) (tension (string2 s)))))
               (fmul (fsub (Fin 1) (bridgeStiffness s)) (bridgeY s))"
  have c: "isfinite (std_max (Fin (- 0.5)) (std_min (Fin 0.5) ?b1))"
      "- 0.5 \<le> val (std_max (Fin (- 0.5)) (std_min (Fin 0.5) ?b1))"
      "val (std_max (Fin (- 0.5)) (std_min (Fin 0.5) ?b1)) \<le> 0.5"
    by (rule std_clamp; simp)+
  show "isfinite (new_bridge a b s)" "\<bar>val (new_bridge a b s)\<bar> \<le> 1 / 2"
    using c by (simp_all add: new_bridge_def Let_def abs_le_iff)
qed

lemma bridge_next_clamped:
  "isfinite (bridge_next s)" "\<bar>val (bridge_next s)\<bar> \<le> 1 / 2"
  unfolding bridge_next_def by (rule new_bridge_clamped)+

lemma wf_string_computeEnergy [simp]: "wf_string (computeEnergy st) = wf_string st"
  by (simp add: wf_string_def)

lemma y_new_of_nth:
  "j < NUM_POINTS \<Longrightarrow>
   y_new_of r d st b ! j =
     (if j = 0 then Fin 0 else if j < NUM_POINTS - 1 then wave_update r d st j else b)"
  by (simp add: y_new_of_def)

lemma string_next_sel [simp]:
  "y (string_next d b st) = y_new_of (courant_sq d st) d st b"
  "y_prev (string_next d b st) = y st"
  "v (string_next d b st) = commit_v d (y_new_of (courant_sq d st) d st b) st"
  "tension (string_next d b st) = tension st"
  "density (string_next d b st) = density st"
  "damping (string_next d b st) = damping st"
  "waveSpeed (string_next d b st) = waveSpeed st"
  "length_s (string_next d b st) = length_s st"
  "frequency (string_next d b st) = frequency st"
  by (simp_all add: string_next_def Let_def)

lemma wf_string_next: "wf_string st \<Longrightarrow> wf_string (string_next d b st)"
  by (simp add: wf_string_def commit_v_def)

lemma wf_step_core: "wf s \<Longrightarrow> wf (step_core s)"
  by (simp add: wf_def step_core_def wf_string_next)

lemma recordHistory_strings [simp]:
  "string1 (recordHistory s) = string1 s" "string2 (recordHistory s) = string2 s"
  "bridgeY (recordHistory s) = bridgeY s" "dt (recordHistory s) = dt s"
  "bridgeStiffness (recordHistory s) = bridgeStiffness s"
  "stepCount (recordHistory s) = stepCount s" "time (recordHistory s) = time s"
  "bridgeV (recordHistory s) = bridgeV s"
  by (simp_all add: recordHistory_def Let_def)

lemma wf_stepOnce: "wf s \<Longrightarrow> wf (stepOnce s)"
  using wf_step_core [of s] by (simp add: stepOnce_eq) (simp add: wf_def)

lemma stepOnce_sel:
  assumes "wf s"
  shows "string1 (stepOnce s) = string_next (dt s) (bridge_next s) (string1 s)"
    and "string2 (stepOnce s) = string_next (dt s) (bridge_next s) (string2 s)"
    and "bridgeY (stepOnce s) = bridge_next s"
    and "dt (stepOnce s) = dt s"
    and "bridgeStiffness (stepOnce s) = bridgeStiffness s"
    and "stepCount (stepOnce s) = stepCount s + 1"
  using assms by (simp_all add: stepOnce_eq step_core_def)

lemma step_loop_snoc: "step_loop (Suc k) s = stepOnce (step_loop k s)"
  by (induction k arbitrary: s) simp_all

lemma wf_step_loop: "wf s \<Longrightarrow> wf (step_loop k s)"
  by (induction k arbitrary: s) (simp_all add: wf_stepOnce)

lemma feq_refl_fin: "isfinite a \<Longrightarrow> feq a a"
  by (cases a) simp_all

lemma bridge_shared_stepOnce:
  assumes "wf s"
  shows "bridge_shared (stepOnce s)"
  using bridge_next_clamped(1) [of s]
  by (simp add: bridge_shared_def stepOnce_sel [OF assms] y_new_of_nth NUM_POINTS_def feq_refl_fin)

subsection \<open>\<^verbatim>\<open>computeEnergy\<close> in closed form\<close>

lemma energy_body_fst:
  "fst (fold (energy_body st dx) is acc) = fold (\<lambda>i ke. fadd ke (ke_term st dx i)) is (fst acc)"
  by (induction "is" arbitrary: acc) (simp_all add: energy_body_def ke_term_def Let_def)

lemma energy_body_snd:
  "snd (fold (energy_body st dx) is acc) =
   fold (\<lambda>i pe. if i < NUM_POINTS - 1 then fadd pe (pe_term st dx i) else pe) is (snd acc)"
  by (induction "is" arbitrary: acc) (simp_all add: energy_body_def pe_term_def Let_def)

lemma fold_fadd_foldl: "fold (\<lambda>i a. fadd a (f i)) is a = foldl fadd a (map f is)"
  by (induction "is" arbitrary: a) simp_all

lemma fold_guard_foldl:
  "fold (\<lambda>i a. if i < m then fadd a (f i) else a) [0..<n] a = foldl fadd a (map f [0..<min n m])"
proof (induction n)
  case 0
  then show ?case by simp
next
  case (Suc n)
  show ?case
  proof (cases "n < m")
    case True
    then have "min (Suc n) m = Suc n" "min n m = n" by simp_all
    with True Suc show ?thesis by simp
  next
    case False
    then have "min (Suc n) m = m" "min n m = m" by simp_all
    with False Suc show ?thesis by simp
  qed
qed

lemma dx_c_eq: "dx_c = Fin (1 / 199)"
  by (simp add: dx_c_def NUM_POINTS_def ovf_small)

lemma computeEnergy_fsum:
  "computeEnergy st =
   st\<lparr>kineticEnergy := kinetic_fsum st,
      potentialEnergy := potential_fsum st,
      totalEnergy := fadd (kinetic_fsum st) (potential_fsum st)\<rparr>"
proof -
  have m: "min NUM_POINTS (NUM_POINTS - 1) = NUM_POINTS - 1" by simp
  show ?thesis
    unfolding computeEnergy_def Let_def for_loop_fold energy_body_fst energy_body_snd
      dx_c_def [symmetric] fst_conv snd_conv fold_fadd_foldl fold_guard_foldl m
      kinetic_fsum_def [symmetric] potential_fsum_def [symmetric]
    by simp
qed

lemma computeEnergy_idem: "computeEnergy (computeEnergy st) = computeEnergy st"
proof -
  have "energy_body (computeEnergy st) dx = energy_body st dx" for dx
    by (intro ext) (simp add: energy_body_def)
  then show ?thesis by (simp add: computeEnergy_def Let_def)
qed

lemma foldl_fadd_finiteD:
  "isfinite (foldl fadd a xs) \<Longrightarrow>
   isfinite a \<and> (\<forall>x\<in>set xs. isfinite x) \<and> foldl fadd a xs = Fin (val a + sum_list (map val xs))"
proof (induction xs arbitrary: a)
  case Nil
  then show ?case by (simp add: isfinite_conv [symmetric])
next
  case (Cons x xs)
  from Cons.prems have f: "isfinite (foldl fadd (fadd a x) xs)" by simp
  note ih = Cons.IH [OF f]
  from ih have "isfinite (fadd a x)" by simp
  from fadd_finiteD [OF this] ih show ?case by (simp add: add.assoc)
qed

lemma ke_term_finiteD:
  assumes "isfinite (ke_term st dx_c i)"
  shows "val (ke_term st dx_c i) = 0.5 * val (density st) * (1 / 199) * (val (v st ! i))\<^sup>2"
proof -
  let ?a = "fmul (Fin 0.5) (density st)"
  let ?b = "fmul ?a dx_c"
  let ?c = "fmul ?b (v st ! i)"
  have d: "isfinite (fmul ?c (v st ! i))" using assms by (simp add: ke_term_def)
  note 1 = fmul_finiteD [OF d]
  then have c: "isfinite ?c" by simp
  note 2 = fmul_finiteD [OF c]
  then have b: "isfinite ?b" by simp
  note 3 = fmul_finiteD [OF b]
  then have a: "isfinite ?a" by simp
  note 4 = fmul_finiteD [OF a]
  have "ke_term st dx_c i = Fin (0.5 * val (density st) * (1 / 199) * val (v st ! i) * val (v st ! i))"
    unfolding ke_term_def using 1 2 3 4 by (simp add: dx_c_eq)
  then show ?thesis by (simp add: power2_eq_square)
qed

lemma pe_term_finiteD:
  assumes "isfinite (pe_term st dx_c i)"
  shows "val (pe_term st dx_c i) =
         0.5 * val (tension st) * ((val (y st ! (i + 1)) - val (y st ! i)) / (1 / 199))\<^sup>2 * (1 / 199)"
proof -
  let ?s = "fdiv (fsub (y st ! (i + 1)) (y st ! i)) dx_c"
  let ?a = "fmul (Fin 0.5) (tension st)"
  let ?b = "fmul ?a ?s"
  let ?c = "fmul ?b ?s"
  have d: "isfinite (fmul ?c dx_c)" using assms by (simp add: pe_term_def Let_def)
  note 1 = fmul_finiteD [OF d]
  then have c: "isfinite ?c" by simp
  note 2 = fmul_finiteD [OF c]
  then have b: "isfinite ?b" and s: "isfinite ?s" by simp_all
  note 3 = fmul_finiteD [OF b]
  then have a: "isfinite ?a" by simp
  note 4 = fmul_finiteD [OF a]
  have dxf: "isfinite dx_c" by (simp add: dx_c_eq)
  note 5 = fdiv_finiteD [OF s dxf]
  then have "isfinite (fsub (y st ! (i + 1)) (y st ! i))" by simp
  note 6 = fsub_finiteD [OF this]
  have sv: "val ?s = (val (y st ! (i + 1)) - val (y st ! i)) / (1 / 199)"
    using 5 6 by (simp add: dx_c_eq)
  have "val (pe_term st dx_c i) = 0.5 * val (tension st) * val ?s * val ?s * (1 / 199)"
    unfolding pe_term_def Let_def using 1 2 3 4 by (simp add: dx_c_eq)
  then show ?thesis unfolding sv by (simp add: power2_eq_square)
qed

lemma sum_list_upt: "sum_list (map f [0..<n]) = (\<Sum>i<n. f i)"
  by (induction n) simp_all

lemma kinetic_fsum_finite:
  assumes "isfinite (kinetic_fsum st)"
  shows "kinetic_fsum st = Fin (kinetic_sum st)"
proof -
  note d = foldl_fadd_finiteD [OF assms [unfolded kinetic_fsum_def]]
  then have "\<And>i. i < NUM_POINTS \<Longrightarrow> isfinite (ke_term st dx_c i)" by simp
  then have "\<And>i. i < NUM_POINTS \<Longrightarrow>
      val (ke_term st dx_c i) = 0.5 * val (density st) * (1 / 199) * (val (v st ! i))\<^sup>2"
    by (rule ke_term_finiteD)
  then have "sum_list (map val (map (ke_term st dx_c) [0..<NUM_POINTS])) = kinetic_sum st"
    unfolding kinetic_sum_def map_map sum_list_upt comp_def by (intro sum.cong) simp_all
  then show ?thesis using d by (simp add: kinetic_fsum_def)
qed

lemma potential_fsum_finite:
  assumes "isfinite (potential_fsum st)"
  shows "potential_fsum st = Fin (potential_sum st)"
proof -
  note d = foldl_fadd_finiteD [OF assms [unfolded potential_fsum_def]]
  then have "\<And>i. i < NUM_POINTS - 1 \<Longrightarrow> isfinite (pe_term st dx_c i)" by simp
  then have "\<And>i. i < NUM_POINTS - 1 \<Longrightarrow> val (pe_term st dx_c i) =
      0.5 * val (tension st) * ((val (y st ! (i + 1)) - val (y st ! i)) / (1 / 199))\<^sup>2 * (1 / 199)"
    by (rule pe_term_finiteD)
  then have "sum_list (map val (map (pe_term st dx_c) [0..<NUM_POINTS - 1])) = potential_sum st"
    unfolding potential_sum_def map_map sum_list_upt comp_def by (intro sum.cong) simp_all
  then show ?thesis using d by (simp add: potential_fsum_def)
qed

lemma energy_ok_computeEnergy:
  assumes "computeEnergy st = st"
  shows "energy_ok st"
proof -
  have k: "kineticEnergy st = kinetic_fsum st" and p: "potentialEnergy st = potential_fsum st"
    and t: "totalEnergy st = fadd (kinetic_fsum st) (potential_fsum st)"
    by (subst assms [symmetric], simp add: computeEnergy_fsum)+
  have tot: "fadd (kinetic_fsum st) (potential_fsum st) = Fin (kinetic_sum st + potential_sum st)"
    if f: "isfinite (fadd (kinetic_fsum st) (potential_fsum st))"
    using fadd_finiteD [OF f] kinetic_fsum_finite [of st] potential_fsum_finite [of st] by simp
  show ?thesis
    unfolding energy_ok_def k p t
    using kinetic_fsum_finite [of st] potential_fsum_finite [of st] tot by simp
qed

lemma nonneg_kinetic_fsum:
  assumes "density st = Fin 0.001"
  shows "nonneg_f (kinetic_fsum st)"
proof -
  have c: "fmul (fmul (Fin 0.5) (density st)) dx_c = Fin (0.5 * 0.001 * (1 / 199))"
    by (simp add: assms dx_c_eq ovf_small)
  have "nonneg_f (ke_term st dx_c i)" for i
    unfolding ke_term_def c by (rule nonneg_f_square) simp
  then show ?thesis
    unfolding kinetic_fsum_def by (intro nonneg_f_foldl) auto
qed

lemma nonneg_potential_fsum:
  assumes "isfinite (tension st)" "0 < val (tension st)" "val (tension st) \<le> 4000"
  shows "nonneg_f (potential_fsum st)"
proof -
  obtain t where t: "tension st = Fin t" "0 < t" "t \<le> 4000"
    using assms by (cases "tension st") simp_all
  have c: "fmul (Fin 0.5) (tension st) = Fin (0.5 * t)"
    using t by (simp add: ovf_small)
  have "nonneg_f (pe_term st dx_c i)" for i
    unfolding pe_term_def Let_def c dx_c_eq
    using t by (intro nonneg_f_scale nonneg_f_square) simp_all
  then show ?thesis
    unfolding potential_fsum_def by (intro nonneg_f_foldl) auto
qed

subsection \<open>\<^verbatim>\<open>pluck\<close>, and the invariant in every reachable state\<close>

lemma pluck_string_eq:
  assumes "wf_string st"
  shows "pluck_string p0 a0 st =
         computeEnergy
           (st\<lparr>v := replicate NUM_POINTS (Fin 0),
               y := (pluck_profile (std_max (Fin 0.1) (std_min (Fin 0.9) p0))
                       (std_max (Fin 0) (std_min (Fin 1) a0)))[0 := Fin 0],
               y_prev := (pluck_profile (std_max (Fin 0.1) (std_min (Fin 0.9) p0))
                            (std_max (Fin 0) (std_min (Fin 1) a0)))[0 := Fin 0]\<rparr>)"
  unfolding pluck_string_def Let_def pluck_loop_eq [OF assms] by simp

lemma selected_pluck:
  "selected idx (pluck idx p a s) = pluck_string p a (selected idx s)"
  by (simp add: selected_def pluck_def)

lemma wf_selected: "wf s \<Longrightarrow> wf_string (selected idx s)"
  by (simp add: wf_def selected_def)

lemma pluck_string_sel:
  assumes "wf_string st"
  shows "y (pluck_string p0 a0 st) =
           (pluck_profile (std_max (Fin 0.1) (std_min (Fin 0.9) p0))
              (std_max (Fin 0) (std_min (Fin 1) a0)))[0 := Fin 0]"
    and "y_prev (pluck_string p0 a0 st) = y (pluck_string p0 a0 st)"
    and "v (pluck_string p0 a0 st) = replicate NUM_POINTS (Fin 0)"
    and "computeEnergy (pluck_string p0 a0 st) = pluck_string p0 a0 st"
  by (simp_all add: pluck_string_eq [OF assms] computeEnergy_idem)

lemma pluck_string_frame:
  assumes "wf_string st"
  shows "tension (pluck_string p a st) = tension st" "waveSpeed (pluck_string p a st) = waveSpeed st"
    "damping (pluck_string p a st) = damping st" "density (pluck_string p a st) = density st"
    "frequency (pluck_string p a st) = frequency st" "length_s (pluck_string p a st) = length_s st"
    "forceOnBridge (pluck_string p a st) = forceOnBridge st"
  by (simp_all add: pluck_string_eq [OF assms])

lemma wf_pluck: "wf s \<Longrightarrow> wf (pluck idx p a s)"
  by (simp add: wf_def pluck_def pluck_string_eq wf_string_def pluck_profile_def)

lemma step_one: "step 1 s = stepOnce s"
  by (simp add: step_def)

lemma string_ok_computeEnergy:
  assumes "wf_string st" "y st ! 0 = Fin 0" "isfinite (tension st)" "0 < val (tension st)"
    "val (tension st) \<le> 4000" "density st = Fin 0.001" "length_s st = Fin 1"
  shows "string_ok (computeEnergy st)"
  unfolding computeEnergy_fsum using assms
  by (simp add: string_ok_def wf_string_def nonneg_kinetic_fsum nonneg_potential_fsum)

lemma string_ok_new: "string_ok StringState_new"
  by (simp add: string_ok_def StringState_new_def wf_string_def NUM_POINTS_def)

lemma string_ok_setFrequency:
  assumes "string_ok st" "isfinite f" "50 \<le> val f" "val f \<le> 1000"
  shows "string_ok (setFrequency f st)"
proof -
  obtain x where f: "f = Fin x" and x: "50 \<le> x" "x \<le> 1000"
    using assms(2,3,4) by (cases f) simp_all
  have a: "\<bar>4 / 1000 * x\<bar> \<le> 10 ^ 30" using x by simp
  have xx: "x * x \<le> 1000 * 1000" using x by (intro mult_mono) simp_all
  have b: "\<bar>4 / 1000 * x * x\<bar> \<le> 10 ^ 30" "4 / 1000 * x * x \<le> 4000" "0 < 4 / 1000 * x * x"
    using x xx by (simp_all add: abs_mult)
  have t: "fmul (fmul (fmul (fmul (fmul (Fin 4) (Fin (1 / 1000))) (Fin 1)) (Fin 1)) (Fin x)) (Fin x) =
           Fin (4 / 1000 * x * x)"
    using ovf_small [OF a] ovf_small [OF b(1)] by (simp add: ovf_small)
  show ?thesis
    using assms(1) b t unfolding f
    by (simp add: string_ok_def setFrequency_def Let_def wf_string_def)
qed

lemma string_ok_setFrequency_clamp:
  "string_ok st \<Longrightarrow> string_ok (setFrequency (std_max (Fin 50) (std_min (Fin 1000) f)) st)"
  by (rule string_ok_setFrequency) (simp_all add: std_clamp)

lemma string_ok_pluck:
  assumes "string_ok st"
  shows "string_ok (pluck_string p0 a0 st)"
proof -
  have w: "wf_string st" using assms by (simp add: string_ok_def)
  show ?thesis
    unfolding pluck_string_eq [OF w]
    using assms
    by (intro string_ok_computeEnergy)
       (simp_all add: string_ok_def wf_string_def pluck_profile_def NUM_POINTS_def)
qed

lemma string_ok_next:
  assumes "string_ok st"
  shows "string_ok (string_next d b st)"
proof -
  have y0: "y_new_of (courant_sq d st) d st b ! 0 = Fin 0"
    by (simp add: y_new_of_nth NUM_POINTS_def)
  show ?thesis
    unfolding string_next_def Let_def
    using assms y0
    by (intro string_ok_computeEnergy) (simp_all add: string_ok_def wf_string_def commit_v_def)
qed

lemma Inv_wf: "Inv s \<Longrightarrow> wf s"
  by (simp add: Inv_def wf_def string_ok_def)

lemma Inv_recordHistory:
  assumes "Inv s"
  shows "Inv (recordHistory s)"
  using assms
  by (auto simp: Inv_def recordHistory_def Let_def HISTORY_LENGTH_def)

lemma Inv_step_core:
  assumes "Inv s"
  shows "Inv (step_core s)"
  using assms bridge_next_clamped [of s]
  by (simp add: Inv_def step_core_def string_ok_next)

lemma Inv_stepOnce: "Inv s \<Longrightarrow> Inv (stepOnce s)"
  by (simp add: stepOnce_eq Inv_wf Inv_step_core Inv_recordHistory)

lemma Inv_step_loop: "Inv s \<Longrightarrow> Inv (step_loop k s)"
  by (induction k arbitrary: s) (simp_all add: Inv_stepOnce)

lemma Inv_construct: "Inv construct"
  by (simp add: Inv_def construct_def string_ok_setFrequency string_ok_new HISTORY_LENGTH_def
      ovf_small)

lemma Inv_reset: "Inv s \<Longrightarrow> Inv (reset s)"
  by (simp add: Inv_def reset_def Let_def string_ok_setFrequency string_ok_new HISTORY_LENGTH_def)

lemma Inv_pluck: "Inv s \<Longrightarrow> Inv (pluck idx p a s)"
  by (simp add: Inv_def pluck_def string_ok_pluck)

lemma Inv_setFrequency:
  "Inv s \<Longrightarrow> Inv (setString1Frequency f s)" "Inv s \<Longrightarrow> Inv (setString2Frequency f s)"
  by (simp_all add: Inv_def setString1Frequency_def setString2Frequency_def
      string_ok_setFrequency_clamp)

lemma Inv_setDamping: "Inv s \<Longrightarrow> Inv (setDamping d s)"
  by (simp add: Inv_def setDamping_def Let_def string_ok_def wf_string_def)

lemma Inv_setBridgeStiffness: "Inv s \<Longrightarrow> Inv (setBridgeStiffness x s)"
  by (simp add: Inv_def setBridgeStiffness_def std_clamp)

lemma reachable_Inv: "reachable s \<Longrightarrow> Inv s"
proof (induction rule: reachable.induct)
  case r_construct
  show ?case by (rule Inv_construct)
next
  case (r_step s numSteps)
  then show ?case by (simp add: step_def Inv_step_loop)
qed (simp_all add: Inv_pluck Inv_reset Inv_setFrequency Inv_setDamping Inv_setBridgeStiffness)

lemma wf_construct: "wf construct"
  using Inv_construct by (rule Inv_wf)

subsection \<open>The formulas of a step, where the results are finite\<close>

lemma courant_sq_finiteD:
  assumes "isfinite (courant_sq d st)"
  shows "isfinite d \<and> isfinite (waveSpeed st) \<and>
         courant_sq d st = Fin ((val (waveSpeed st) * val d / (1 / 199))\<^sup>2)"
proof -
  let ?m = "fmul (waveSpeed st) d"
  let ?r = "fdiv ?m dx_c"
  have "isfinite (fmul ?r ?r)" using assms by (simp add: courant_sq_def Let_def)
  note 1 = fmul_finiteD [OF this]
  then have r: "isfinite ?r" by simp
  have dxf: "isfinite dx_c" by (simp add: dx_c_eq)
  note 2 = fdiv_finiteD [OF r dxf]
  then have "isfinite ?m" by simp
  note 3 = fmul_finiteD [OF this]
  have "val ?r = val (waveSpeed st) * val d / (1 / 199)" using 2 3 by (simp add: dx_c_eq)
  then show ?thesis
    using 1 3 by (simp add: courant_sq_def Let_def power2_eq_square)
qed

lemma wave_update_finite:
  assumes "isfinite (wave_update (courant_sq d st) d st i)"
  shows "wave_update (courant_sq d st) d st i = Fin (wave_formula (val d) st i)"
proof -
  let ?yi = "y st ! i" and ?yp = "y_prev st ! i"
  let ?lap = "fadd (fsub (y st ! (i + 1)) (fmul (Fin 2) ?yi)) (y st ! (i - 1))"
  let ?vel = "fdiv (fsub ?yi ?yp) d"
  let ?A1 = "fsub (fmul (Fin 2) ?yi) ?yp"
  let ?A2 = "fmul (courant_sq d st) ?lap"
  let ?B = "fmul (fmul (damping st) d) ?vel"
  have w: "wave_update (courant_sq d st) d st i = fsub (fadd ?A1 ?A2) ?B"
    by (simp add: wave_update_def Let_def)
  note t = fsub_finiteD [OF assms [unfolded w]]
  then have "isfinite (fadd ?A1 ?A2)" and B: "isfinite ?B" by simp_all
  note a = fadd_finiteD [OF this(1)]
  then have A1: "isfinite ?A1" and A2: "isfinite ?A2" by simp_all
  note a1 = fsub_finiteD [OF A1]
  then have "isfinite (fmul (Fin 2) ?yi)" by simp
  note a1' = fmul_finiteD [OF this]
  note a2 = fmul_finiteD [OF A2]
  then have "isfinite (courant_sq d st)" and lap: "isfinite ?lap" by simp_all
  note r = courant_sq_finiteD [OF this(1)]
  note l = fadd_finiteD [OF lap]
  then have "isfinite (fsub (y st ! (i + 1)) (fmul (Fin 2) ?yi))" by simp
  note l' = fsub_finiteD [OF this]
  note b = fmul_finiteD [OF B]
  then have "isfinite (fmul (damping st) d)" and vel: "isfinite ?vel" by simp_all
  note b' = fmul_finiteD [OF this(1)]
  have dfin: "isfinite d" using r by simp
  note v = fdiv_finiteD [OF vel dfin]
  then have "isfinite (fsub ?yi ?yp)" by simp
  note v' = fsub_finiteD [OF this]
  have vA1: "val ?A1 = 2 * val ?yi - val ?yp" using a1 a1' by simp
  have vlap: "val ?lap = val (y st ! (i + 1)) - 2 * val ?yi + val (y st ! (i - 1))"
    using l l' a1' by simp
  have vA2: "val ?A2 = (val (waveSpeed st) * val d / (1 / 199))\<^sup>2 * val ?lap"
    using a2 r by simp
  have vvel: "val ?vel = (val ?yi - val ?yp) / val d" using v v' by simp
  have vB: "val ?B = val (damping st) * val d * val ?vel" using b b' by simp
  have "fsub (fadd ?A1 ?A2) ?B = Fin (val ?A1 + val ?A2 - val ?B)"
    using t a by simp
  then show ?thesis
    unfolding w vA1 vA2 vB vlap vvel by (simp add: wave_formula_def Let_def)
qed

lemma bridge_want_finite:
  assumes "isfinite (bridge_want (courant_sq d st) d st)"
  shows "bridge_want (courant_sq d st) d st = Fin (want_formula (val d) st)"
proof -
  let ?y = "y st ! 199" and ?yp = "y_prev st ! 199" and ?z = "y st ! 198"
  let ?lap = "fadd (fsub ?z (fmul (Fin 2) ?y)) ?y"
  let ?A1 = "fsub (fmul (Fin 2) ?y) ?yp"
  let ?A2 = "fmul (courant_sq d st) ?lap"
  let ?num = "fmul (fmul (damping st) d) (fsub ?y ?yp)"
  let ?B = "fdiv ?num d"
  have w: "bridge_want (courant_sq d st) d st = fsub (fadd ?A1 ?A2) ?B"
    by (simp add: bridge_want_def Let_def NUM_POINTS_def)
  note t = fsub_finiteD [OF assms [unfolded w]]
  then have "isfinite (fadd ?A1 ?A2)" and B: "isfinite ?B" by simp_all
  note a = fadd_finiteD [OF this(1)]
  then have A1: "isfinite ?A1" and A2: "isfinite ?A2" by simp_all
  note a1 = fsub_finiteD [OF A1]
  then have "isfinite (fmul (Fin 2) ?y)" by simp
  note a1' = fmul_finiteD [OF this]
  note a2 = fmul_finiteD [OF A2]
  then have "isfinite (courant_sq d st)" and lap: "isfinite ?lap" by simp_all
  note r = courant_sq_finiteD [OF this(1)]
  note l = fadd_finiteD [OF lap]
  then have "isfinite (fsub ?z (fmul (Fin 2) ?y))" by simp
  note l' = fsub_finiteD [OF this]
  have dfin: "isfinite d" using r by simp
  note b = fdiv_finiteD [OF B dfin]
  then have "isfinite ?num" and d0: "val d \<noteq> 0" by simp_all
  note n = fmul_finiteD [OF this(1)]
  then have "isfinite (fmul (damping st) d)" "isfinite (fsub ?y ?yp)" by simp_all
  note n1 = fmul_finiteD [OF this(1)] and n2 = fsub_finiteD [OF this(2)]
  have vA1: "val ?A1 = 2 * val ?y - val ?yp" using a1 a1' by simp
  have vlap: "val ?lap = val ?z - 2 * val ?y + val ?y" using l l' a1' by simp
  have vA2: "val ?A2 = (val (waveSpeed st) * val d / (1 / 199))\<^sup>2 * val ?lap"
    using a2 r by simp
  have vB: "val ?B = val (damping st) * val d * (val ?y - val ?yp) / val d"
    using b n n1 n2 by simp
  have "fsub (fadd ?A1 ?A2) ?B = Fin (val ?A1 + val ?A2 - val ?B)"
    using t a by simp
  then show ?thesis
    unfolding w vA1 vA2 vB vlap using d0 by (simp add: want_formula_def Let_def)
qed

lemma new_bridge_check_dead:
  "new_bridge a b s =
   std_max (fneg (Fin 0.5))
     (std_min (Fin 0.5)
        (fadd (fmul (bridgeStiffness s)
                 (fdiv (fadd (fmul (tension (string1 s)) a) (fmul (tension (string2 s)) b))
                       (fadd (tension (string1 s)) (tension (string2 s)))))
              (fmul (fsub (Fin 1) (bridgeStiffness s)) (bridgeY s))))"
  using std_clamp(1) [of "- 0.5" "0.5"] by (simp add: new_bridge_def Let_def)

lemma bridge_next_blend:
  "bridge_next s = std_max (fneg (Fin 0.5)) (std_min (Fin 0.5) (bridge_blend s))"
  by (simp add: bridge_next_def new_bridge_check_dead bridge_blend_def bridge_candidate_def)

lemma new_bridge_NaN: "new_bridge NaN b s = Fin (1 / 2)"
  by (simp add: new_bridge_check_dead std_max_def std_min_def)

lemma bridge_want_NaN:
  "y st ! (NUM_POINTS - 2) = NaN \<Longrightarrow> bridge_want r d st = NaN"
  by (simp add: bridge_want_def Let_def)

lemma bridge_next_formula:
  assumes "Inv s" "isfinite (bridge_blend s)"
  shows "bridge_next s = Fin (bridge_formula s)"
proof -
  have ok: "string_ok (string1 s)" "string_ok (string2 s)"
    using assms(1) by (simp_all add: Inv_def)
  obtain t1 where t1: "tension (string1 s) = Fin t1" "0 < t1" "t1 \<le> 4000"
    using ok(1) by (cases "tension (string1 s)") (simp_all add: string_ok_def)
  obtain t2 where t2: "tension (string2 s) = Fin t2" "0 < t2" "t2 \<le> 4000"
    using ok(2) by (cases "tension (string2 s)") (simp_all add: string_ok_def)
  let ?w1 = "bridge_want (courant_sq (dt s) (string1 s)) (dt s) (string1 s)"
  let ?w2 = "bridge_want (courant_sq (dt s) (string2 s)) (dt s) (string2 s)"
  let ?num = "fadd (fmul (Fin t1) ?w1) (fmul (Fin t2) ?w2)"
  have den: "ovf (t1 + t2) = Fin (t1 + t2)" "t1 + t2 \<noteq> 0"
    using t1 t2 by (simp_all add: ovf_small)
  have c: "bridge_candidate s = fdiv ?num (Fin (t1 + t2))"
    by (simp add: bridge_candidate_def t1 t2 den)
  let ?k = "bridgeStiffness s"
  note b = fadd_finiteD [OF assms(2) [unfolded bridge_blend_def]]
  then have "isfinite (fmul ?k (bridge_candidate s))"
    "isfinite (fmul (fsub (Fin 1) ?k) (bridgeY s))" by simp_all
  note b1 = fmul_finiteD [OF this(1)] and b2 = fmul_finiteD [OF this(2)]
  then have cand: "isfinite (bridge_candidate s)" and "isfinite (fsub (Fin 1) ?k)" by simp_all
  note k1 = fsub_finiteD [OF this(2)]
  have "isfinite (fdiv ?num (Fin (t1 + t2)))" using cand c by simp
  note q = fdiv_finiteD [OF this]
  then have "isfinite ?num" by simp
  note n = fadd_finiteD [OF this]
  then have "isfinite (fmul (Fin t1) ?w1)" "isfinite (fmul (Fin t2) ?w2)" by simp_all
  note m1 = fmul_finiteD [OF this(1)] and m2 = fmul_finiteD [OF this(2)]
  then have "isfinite ?w1" "isfinite ?w2" by simp_all
  note w1 = bridge_want_finite [OF this(1)] and w2 = bridge_want_finite [OF this(2)]
  have vw: "val ?w1 = want_formula (val (dt s)) (string1 s)"
    "val ?w2 = want_formula (val (dt s)) (string2 s)"
    using w1 w2 by simp_all
  have vn: "val ?num = t1 * val ?w1 + t2 * val ?w2" using n m1 m2 by simp
  have "val (fdiv ?num (Fin (t1 + t2))) = val ?num / (t1 + t2)" using q by simp
  then have vc: "val (bridge_candidate s) =
      (t1 * want_formula (val (dt s)) (string1 s) + t2 * want_formula (val (dt s)) (string2 s))
      / (t1 + t2)"
    unfolding c vn vw .
  have "bridge_blend s = Fin (val ?k * val (bridge_candidate s) + (1 - val ?k) * val (bridgeY s))"
    unfolding bridge_blend_def using b b1 b2 k1 by simp
  then have "bridge_next s =
      std_max (Fin (- (1 / 2))) (std_min (Fin (1 / 2))
        (Fin (val ?k * val (bridge_candidate s) + (1 - val ?k) * val (bridgeY s))))"
    by (simp add: bridge_next_blend)
  also have "\<dots> = Fin (bridge_formula s)"
    unfolding bridge_formula_def Let_def vc
    by (subst std_clamp_Fin) (simp_all add: t1 t2)
  finally show ?thesis .
qed

lemma bridge_frozen:
  assumes "Inv s" "bridgeStiffness s = Fin 0" "isfinite (bridge_candidate s)"
  shows "bridge_next s = bridgeY s"
proof -
  obtain bv where bv: "bridgeY s = Fin bv" "\<bar>bv\<bar> \<le> 1 / 2"
    using assms(1) by (cases "bridgeY s") (simp_all add: Inv_def)
  obtain c where c: "bridge_candidate s = Fin c"
    using assms(3) by (cases "bridge_candidate s") simp_all
  have small: "\<bar>bv\<bar> \<le> 10 ^ 30" using bv(2) by simp
  have bnd: "- (1 / 2) \<le> bv" "bv \<le> 1 / 2" using bv(2) by (simp_all add: abs_le_iff)
  have o: "ovf bv = Fin bv" by (rule ovf_small [OF small])
  have "bridge_blend s = Fin bv"
    by (simp add: bridge_blend_def assms(2) c bv(1) ovf_small o)
  then have "bridge_next s = std_max (Fin (- (1 / 2))) (std_min (Fin (1 / 2)) (Fin bv))"
    by (simp add: bridge_next_blend)
  also have "\<dots> = Fin (max (- (1 / 2)) (min (1 / 2) bv))"
    by (rule std_clamp_Fin) simp
  also have "\<dots> = Fin bv" using bnd by simp
  finally show ?thesis using bv(1) by simp
qed

lemma decoupled_stepOnce:
  assumes "Inv s" "Inv s'" "string2 s' = string2 s" "bridgeY s' = bridgeY s"
    "bridgeStiffness s = Fin 0" "bridgeStiffness s' = Fin 0"
    "isfinite (bridge_candidate s)" "isfinite (bridge_candidate s')"
  shows "string2 (stepOnce s') = string2 (stepOnce s)"
    and "bridgeY (stepOnce s) = bridgeY s" and "bridgeY (stepOnce s') = bridgeY s"
    and "bridgeStiffness (stepOnce s) = Fin 0" and "bridgeStiffness (stepOnce s') = Fin 0"
proof -
  have w: "wf s" "wf s'" using assms(1,2) by (simp_all add: Inv_wf)
  have d: "dt s = Fin (1 / 352800)" "dt s' = Fin (1 / 352800)"
    using assms(1,2) by (simp_all add: Inv_def)
  have b: "bridge_next s = bridgeY s" "bridge_next s' = bridgeY s"
    using bridge_frozen [OF assms(1,5,7)] bridge_frozen [OF assms(2,6,8)] assms(4) by simp_all
  show "string2 (stepOnce s') = string2 (stepOnce s)"
    by (simp add: stepOnce_sel(2) w d b assms(3))
  show "bridgeY (stepOnce s) = bridgeY s" "bridgeY (stepOnce s') = bridgeY s"
    by (simp_all add: stepOnce_sel(3) w b)
  show "bridgeStiffness (stepOnce s) = Fin 0" "bridgeStiffness (stepOnce s') = Fin 0"
    by (simp_all add: stepOnce_sel(5) w assms(5,6))
qed

lemma step_loop_shift: "step_loop j (stepOnce s) = step_loop (Suc j) s"
  by simp

lemma decoupled_step_loop:
  assumes "Inv s" "Inv s'" "string2 s' = string2 s" "bridgeY s' = bridgeY s"
    "bridgeStiffness s = Fin 0" "bridgeStiffness s' = Fin 0"
    "\<forall>j<k. isfinite (bridge_candidate (step_loop j s)) \<and>
            isfinite (bridge_candidate (step_loop j s'))"
  shows "string2 (step_loop k s') = string2 (step_loop k s) \<and>
         bridgeY (step_loop k s) = bridgeY s \<and> bridgeY (step_loop k s') = bridgeY s"
  using assms
proof (induction k arbitrary: s s')
  case 0
  then show ?case by simp
next
  case (Suc k)
  from Suc.prems(7) have f0: "isfinite (bridge_candidate s)" "isfinite (bridge_candidate s')"
    by (auto dest: spec [of _ 0])
  note d = decoupled_stepOnce [OF Suc.prems(1-6) f0]
  have fin: "\<forall>j<k. isfinite (bridge_candidate (step_loop j (stepOnce s))) \<and>
                   isfinite (bridge_candidate (step_loop j (stepOnce s')))"
  proof (intro allI impI)
    fix j assume "j < k"
    then have "Suc j < Suc k" by simp
    with Suc.prems(7) show "isfinite (bridge_candidate (step_loop j (stepOnce s))) \<and>
                   isfinite (bridge_candidate (step_loop j (stepOnce s')))"
      unfolding step_loop_shift by blast
  qed
  have "string2 (step_loop k (stepOnce s')) = string2 (step_loop k (stepOnce s)) \<and>
        bridgeY (step_loop k (stepOnce s)) = bridgeY (stepOnce s) \<and>
        bridgeY (step_loop k (stepOnce s')) = bridgeY (stepOnce s)"
    using Suc.prems(1,2) d fin by (intro Suc.IH Inv_stepOnce) simp_all
  then show ?case using d by simp
qed

lemma string_next_fixed: "computeEnergy (string_next d b st) = string_next d b st"
  by (simp add: string_next_def Let_def computeEnergy_idem)

lemma energy_ok_stepOnce:
  assumes "wf s"
  shows "energy_ok (string1 (stepOnce s))" "energy_ok (string2 (stepOnce s))"
  unfolding stepOnce_sel(1,2) [OF assms]
  by (rule energy_ok_computeEnergy [OF string_next_fixed])+

lemma energy_ok_pluck:
  assumes "wf s"
  shows "energy_ok (selected idx (pluck idx p a s))"
  unfolding selected_pluck
  by (rule energy_ok_computeEnergy [OF pluck_string_sel(4) [OF wf_selected [OF assms]]])

subsection \<open>Evaluation at concrete states\<close>

lemma clamp_half: "std_max (Fin (1 / 10)) (std_min (Fin (9 / 10)) (Fin (1 / 2))) = Fin (1 / 2)"
  "std_max (Fin 0) (std_min (Fin 1) (Fin 1)) = Fin 1"
  by (simp_all add: std_max_def std_min_def)

lemma clamp_500: "std_max (Fin 50) (std_min (Fin 1000) (Fin 500)) = Fin 500"
  by (simp add: std_max_def std_min_def)

lemma pluck_val_last:
  assumes "isfinite p" "1 / 10 \<le> val p" "val p \<le> 9 / 10" "isfinite a" "0 \<le> val a" "val a \<le> 1"
  shows "pluck_val p a (NUM_POINTS - 1) = Fin 0"
proof -
  obtain pv av where p: "p = Fin pv" and a: "a = Fin av"
    using assms by (cases p; cases a) simp_all
  have o: "ovf (1 - pv) = Fin (1 - pv)" using assms(2,3) unfolding p by (intro ovf_small) simp
  show ?thesis using assms unfolding p a
    by (simp add: pluck_val_def Let_def NUM_POINTS_def ovf_small o)
qed

lemma pluck_bridge_end:
  assumes "wf s"
  shows "y (selected idx (pluck idx position amplitude s)) ! 199 = Fin 0"
    and "y_prev (selected idx (pluck idx position amplitude s)) ! 199 = Fin 0"
proof -
  have w: "wf_string (selected idx s)" using assms(1) by (rule wf_selected)
  have "pluck_val (std_max (Fin 0.1) (std_min (Fin 0.9) position))
          (std_max (Fin 0) (std_min (Fin 1) amplitude)) (NUM_POINTS - 1) = Fin 0"
    using std_clamp [of "0.1" "0.9" position] std_clamp [of 0 1 amplitude]
    by (intro pluck_val_last) simp_all
  then show "y (selected idx (pluck idx position amplitude s)) ! 199 = Fin 0"
    and "y_prev (selected idx (pluck idx position amplitude s)) ! 199 = Fin 0"
    unfolding selected_pluck
    by (simp_all add: pluck_string_sel(1,2) [OF w] pluck_profile_def NUM_POINTS_def)
qed

text \<open>The profile of \<^verbatim>\<open>pluck(0, 0.5, 1.0)\<close>.\<close>

lemma pluck_val_half:
  assumes "i < 200"
  shows "pluck_val (Fin (1 / 2)) (Fin 1) i =
         Fin (if i < 100 then 2 * real i / 199 else 2 * (199 - real i) / 199)"
proof -
  have r: "real i \<le> 199" using assms by simp
  have o: "ovf (real i / 199) = Fin (real i / 199)" "ovf (real i * 2 / 199) = Fin (real i * 2 / 199)"
    "ovf (1 - real i / 199) = Fin (1 - real i / 199)"
    "ovf ((1 - real i / 199) * 2) = Fin ((1 - real i / 199) * 2)"
    using r by (intro ovf_small; simp add: abs_le_iff field_simps)+
  have lt: "real i / 199 < 1 / 2 \<longleftrightarrow> i < 100" by (simp add: field_simps) linarith
  show ?thesis
    unfolding pluck_val_def Let_def
    using o lt by (simp add: NUM_POINTS_def ovf_small field_simps)
qed

lemma string1_plucked_nth:
  assumes "i < 200"
  shows "y (string1 (pluck 0 (Fin (1 / 2)) (Fin 1) construct)) ! i =
         Fin (if i < 100 then 2 * real i / 199 else 2 * (199 - real i) / 199)"
    and "y_prev (string1 (pluck 0 (Fin (1 / 2)) (Fin 1) construct)) ! i =
         Fin (if i < 100 then 2 * real i / 199 else 2 * (199 - real i) / 199)"
proof -
  have w: "wf_string (string1 construct)" using wf_construct by (simp add: wf_def)
  have "y (string1 (pluck 0 (Fin (1 / 2)) (Fin 1) construct)) ! i =
         Fin (if i < 100 then 2 * real i / 199 else 2 * (199 - real i) / 199)"
    using assms
    by (simp add: pluck_def pluck_string_sel(1) [OF w] clamp_half pluck_profile_def
        NUM_POINTS_def nth_list_update pluck_val_half)
  then show "y (string1 (pluck 0 (Fin (1 / 2)) (Fin 1) construct)) ! i =
         Fin (if i < 100 then 2 * real i / 199 else 2 * (199 - real i) / 199)"
    and "y_prev (string1 (pluck 0 (Fin (1 / 2)) (Fin 1) construct)) ! i =
         Fin (if i < 100 then 2 * real i / 199 else 2 * (199 - real i) / 199)"
    by (simp_all add: pluck_def pluck_string_sel(2) [OF w])
qed

lemma sqrt_c1: "sqrt (684502569 / 2500) = 26163 / 50"
  by (rule real_sqrt_unique) (simp_all add: power2_eq_square)

lemma sqrt_c2: "sqrt 614656 = 784"
  by (rule real_sqrt_unique) (simp_all add: power2_eq_square)

lemma string1_fresh:
  "tension (string1 construct) = Fin (4 * (1 / 1000) * (26163 / 100) * (26163 / 100))"
  "waveSpeed (string1 construct) = Fin (26163 / 50)"
  "damping (string1 construct) = Fin (1 / 100000)"
  "density (string1 construct) = Fin (1 / 1000)" "length_s (string1 construct) = Fin 1"
  by (simp_all add: construct_def setFrequency_def StringState_new_def Let_def ovf_small sqrt_c1)

lemma string1_plucked_params:
  "tension (string1 (pluck 0 (Fin (1 / 2)) (Fin 1) construct)) = Fin (4 * (1 / 1000) * (26163 / 100) * (26163 / 100))"
  "waveSpeed (string1 (pluck 0 (Fin (1 / 2)) (Fin 1) construct)) = Fin (26163 / 50)"
  "damping (string1 (pluck 0 (Fin (1 / 2)) (Fin 1) construct)) = Fin (1 / 100000)"
  "density (string1 (pluck 0 (Fin (1 / 2)) (Fin 1) construct)) = Fin (1 / 1000)"
  "length_s (string1 (pluck 0 (Fin (1 / 2)) (Fin 1) construct)) = Fin 1"
proof -
  have w: "wf_string (string1 construct)" using wf_construct by (simp add: wf_def)
  show "tension (string1 (pluck 0 (Fin (1 / 2)) (Fin 1) construct)) = Fin (4 * (1 / 1000) * (26163 / 100) * (26163 / 100))"
  "waveSpeed (string1 (pluck 0 (Fin (1 / 2)) (Fin 1) construct)) = Fin (26163 / 50)"
  "damping (string1 (pluck 0 (Fin (1 / 2)) (Fin 1) construct)) = Fin (1 / 100000)"
  "density (string1 (pluck 0 (Fin (1 / 2)) (Fin 1) construct)) = Fin (1 / 1000)"
  "length_s (string1 (pluck 0 (Fin (1 / 2)) (Fin 1) construct)) = Fin 1"
    by (simp_all add: pluck_def pluck_string_frame [OF w] string1_fresh)
qed

lemma string2_plucked:
  "string2 (pluck 0 (Fin (1 / 2)) (Fin 1) construct) = string2 construct"
  "dt (pluck 0 (Fin (1 / 2)) (Fin 1) construct) = Fin (1 / 352800)"
  "bridgeY (pluck 0 (Fin (1 / 2)) (Fin 1) construct) = Fin 0"
  "bridgeStiffness (pluck 0 (Fin (1 / 2)) (Fin 1) construct) = Fin 1"
  by (simp_all add: pluck_def construct_def ovf_small)

lemma string2_fresh:
  "y (string2 construct) ! 199 = Fin 0" "y_prev (string2 construct) ! 199 = Fin 0"
  "y (string2 construct) ! 198 = Fin 0"
  "tension (string2 construct) = Fin (4 * (1 / 1000) * 392 * 392)"
  "waveSpeed (string2 construct) = Fin 784"
  "damping (string2 construct) = Fin (1 / 100000)"
  by (simp_all add: construct_def setFrequency_def StringState_new_def Let_def NUM_POINTS_def
      ovf_small sqrt_c2)

lemma courant_sq_string1:
  "courant_sq (Fin (1 / 352800)) (string1 (pluck 0 (Fin (1 / 2)) (Fin 1) construct)) =
   Fin ((26163 / 50 * (1 / 352800) / (1 / 199))\<^sup>2)"
  by (simp add: courant_sq_def Let_def dx_c_eq string1_plucked_params sqrt_c1 ovf_small
      power2_eq_square)

lemma courant_sq_string2:
  "courant_sq (Fin (1 / 352800)) (string2 construct) =
   Fin ((784 * (1 / 352800) / (1 / 199))\<^sup>2)"
  by (simp add: courant_sq_def Let_def dx_c_eq string2_fresh sqrt_c2 ovf_small power2_eq_square)

lemma want2_fresh:
  "bridge_want (courant_sq (Fin (1 / 352800)) (string2 construct)) (Fin (1 / 352800))
     (string2 construct) = Fin 0"
  unfolding courant_sq_string2
  by (simp add: bridge_want_def Let_def NUM_POINTS_def string2_fresh ovf_small)

lemma want1_plucked:
  "bridge_want (courant_sq (Fin (1 / 352800)) (string1 (pluck 0 (Fin (1 / 2)) (Fin 1) construct)))
     (Fin (1 / 352800)) (string1 (pluck 0 (Fin (1 / 2)) (Fin 1) construct)) =
   Fin (1681679151 / 1920800000000)"
  unfolding courant_sq_string1
  by (simp add: bridge_want_def Let_def NUM_POINTS_def string1_plucked_nth
      string1_plucked_params ovf_small power2_eq_square)

lemma candidate_after_pluck:
  "bridge_candidate (pluck 0 (Fin (1 / 2)) (Fin 1) construct) =
   Fin (1151113699093238919 / 4266370646535200000000)"
  unfolding bridge_candidate_def string2_plucked want1_plucked want2_fresh
  by (simp add: string1_plucked_params string2_fresh ovf_small)

lemma bridge_after_pluck:
  "bridge_next (pluck 0 (Fin (1 / 2)) (Fin 1) construct) =
   Fin (1151113699093238919 / 4266370646535200000000)"
  unfolding bridge_next_blend bridge_blend_def candidate_after_pluck
  by (simp add: string2_plucked std_max_def std_min_def ovf_small)

lemma wave_update_plucked:
  "wave_update (courant_sq (Fin (1 / 352800)) (string1 (pluck 0 (Fin (1 / 2)) (Fin 1) construct)))
     (Fin (1 / 352800)) (string1 (pluck 0 (Fin (1 / 2)) (Fin 1) construct)) 100 =
   Fin (379983745848951 / 382239200000000)"
  unfolding courant_sq_string1
  by (simp add: wave_update_def Let_def string1_plucked_nth string1_plucked_params ovf_small
      power2_eq_square)

lemma string1_fresh_y:
  "y (string1 construct) ! 199 = Fin 0" "y_prev (string1 construct) ! 199 = Fin 0"
  "y (string1 construct) ! 198 = Fin 0"
  by (simp_all add: construct_def setFrequency_def StringState_new_def Let_def NUM_POINTS_def)

lemma courant_sq_fresh1:
  "courant_sq (Fin (1 / 352800)) (string1 construct) =
   Fin ((26163 / 50 * (1 / 352800) / (1 / 199))\<^sup>2)"
  by (simp add: courant_sq_def Let_def dx_c_eq string1_fresh ovf_small power2_eq_square)

lemma want1_fresh:
  "bridge_want (courant_sq (Fin (1 / 352800)) (string1 construct)) (Fin (1 / 352800))
     (string1 construct) = Fin 0"
  unfolding courant_sq_fresh1
  by (simp add: bridge_want_def Let_def NUM_POINTS_def string1_fresh string1_fresh_y ovf_small)

lemma candidate_fresh: "bridge_candidate construct = Fin 0"
proof -
  have d: "dt construct = Fin (1 / 352800)" by (simp add: construct_def ovf_small)
  show ?thesis
    unfolding bridge_candidate_def d want1_fresh want2_fresh
    by (simp add: string1_fresh string2_fresh ovf_small)
qed

lemma candidate_cong:
  "string1 a = string1 b \<Longrightarrow> string2 a = string2 b \<Longrightarrow> dt a = dt b \<Longrightarrow>
   bridge_candidate a = bridge_candidate b"
  by (simp add: bridge_candidate_def)

text \<open>The potential energy after \<^verbatim>\<open>pluck(0, 0.5, 1.0)\<close> on a new simulation.\<close>

lemma foldl_fadd_Fin:
  assumes "\<And>i. i < n \<Longrightarrow> t i = Fin (g i)" "\<And>i. i < n \<Longrightarrow> 0 \<le> g i \<and> g i \<le> B"
    "0 \<le> a" "a + real n * B \<le> 10 ^ 30"
  shows "foldl fadd (Fin a) (map t [0..<n]) = Fin (a + (\<Sum>i<n. g i))"
  using assms
proof (induction n)
  case 0
  then show ?case by simp
next
  case (Suc n)
  have B: "0 \<le> B" using Suc.prems(2) [of n] by simp
  have ih: "foldl fadd (Fin a) (map t [0..<n]) = Fin (a + (\<Sum>i<n. g i))"
    using Suc.prems B by (intro Suc.IH) (simp_all add: algebra_simps)
  have lo: "0 \<le> (\<Sum>i<Suc n. g i)" using Suc.prems(2) by (intro sum_nonneg) simp
  have "(\<Sum>i<Suc n. g i) \<le> (\<Sum>i<Suc n. B)" using Suc.prems(2) by (intro sum_mono) simp
  then have hi: "(\<Sum>i<Suc n. g i) \<le> real (Suc n) * B" by simp
  have "\<bar>a + (\<Sum>i<Suc n. g i)\<bar> \<le> 10 ^ 30"
    using lo hi Suc.prems(3,4) by (simp add: abs_le_iff)
  from ovf_small [OF this] show ?case
    using ih Suc.prems(1) [of n] by (simp add: add.assoc)
qed

lemma pe_term_plucked:
  assumes "i < 199"
  shows "pe_term (string1 (pluck 0 (Fin (1 / 2)) (Fin 1) construct)) dx_c i =
         Fin (if i = 99 then 0 else 684502569 / 248750000)"
proof -
  let ?st = "string1 (pluck 0 (Fin (1 / 2)) (Fin 1) construct)"
  have i: "i < 200" "i + 1 < 200" using assms by simp_all
  consider (lo) "i < 99" | (mid) "i = 99" | (hi) "99 < i" by linarith
  then have d: "fsub (y ?st ! (i + 1)) (y ?st ! i) =
                Fin (if i < 99 then 2 / 199 else if i = 99 then 0 else - (2 / 199))"
  proof cases
    case lo
    have yi: "y ?st ! i = Fin (2 * real i / 199)" "y ?st ! (i + 1) = Fin (2 * real (i + 1) / 199)"
      using lo by (simp_all add: string1_plucked_nth)
    have diff: "2 * real (i + 1) / 199 - 2 * real i / 199 = (2 / 199 :: real)"
      by (simp add: field_simps)
    show ?thesis unfolding yi fsub_Fin diff using lo by (simp add: ovf_small)
  next
    case mid
    then show ?thesis by (simp add: string1_plucked_nth ovf_small)
  next
    case hi
    have yi: "y ?st ! i = Fin (2 * (199 - real i) / 199)"
      "y ?st ! (i + 1) = Fin (2 * (199 - real (i + 1)) / 199)"
      using hi i by (simp_all add: string1_plucked_nth)
    have diff: "2 * (199 - real (i + 1)) / 199 - 2 * (199 - real i) / 199 = (- (2 / 199) :: real)"
      by (simp add: field_simps)
    show ?thesis unfolding yi fsub_Fin diff using hi by (simp add: ovf_small)
  qed
  show ?thesis
    unfolding pe_term_def Let_def d dx_c_eq
    by (simp add: string1_plucked_params ovf_small)
qed

lemma potential_plucked:
  "potential_fsum (string1 (pluck 0 (Fin (1 / 2)) (Fin 1) construct)) =
   Fin (67765754331 / 124375000)"
proof -
  let ?st = "string1 (pluck 0 (Fin (1 / 2)) (Fin 1) construct)"
  let ?g = "\<lambda>i::nat. if i = 99 then 0 else (684502569 / 248750000 :: real)"
  have "foldl fadd (Fin 0) (map (pe_term ?st dx_c) [0..<199]) = Fin (0 + (\<Sum>i<199. ?g i))"
    by (rule foldl_fadd_Fin [where B = "684502569 / 248750000"]) (simp_all add: pe_term_plucked)
  moreover have "(\<Sum>i<199. ?g i) = 67765754331 / 124375000"
  proof -
    have "(\<Sum>i<199. ?g i) =
          (\<Sum>i<199::nat. (684502569 / 248750000 :: real)) -
          (\<Sum>i<199::nat. if i = 99 then 684502569 / 248750000 else 0)"
      unfolding sum_subtractf [symmetric] by (intro sum.cong) simp_all
    then show ?thesis by simp
  qed
  ultimately show ?thesis by (simp add: potential_fsum_def NUM_POINTS_def)
qed

lemma potential_sum_scale:
  "potential_sum st =
   val (tension st) *
     (\<Sum>i<NUM_POINTS - 1. 0.5 * ((val (y st ! (i + 1)) - val (y st ! i)) / (1 / 199))\<^sup>2 * (1 / 199))"
  unfolding potential_sum_def sum_distrib_left
  by (intro sum.cong refl) simp

lemma strain_sum_pos:
  assumes "y st ! 0 = Fin 0" "y st ! 1 = Fin (2 / 199)"
  shows "0 < (\<Sum>i<NUM_POINTS - 1. 0.5 * ((val (y st ! (i + 1)) - val (y st ! i)) / (1 / 199))\<^sup>2 * (1 / 199))"
    (is "0 < sum ?f _")
proof -
  have "?f 0 \<le> sum ?f {..<NUM_POINTS - 1}"
    by (rule member_le_sum) (simp_all add: NUM_POINTS_def)
  moreover have "0 < ?f 0" using assms by simp
  ultimately show ?thesis by linarith
qed

lemma string1_plucked_low:
  "y (string1 (pluck 0 (Fin (1 / 2)) (Fin 1) construct)) ! 0 = Fin 0"
  "y (string1 (pluck 0 (Fin (1 / 2)) (Fin 1) construct)) ! 1 = Fin (2 / 199)"
  by (simp_all add: string1_plucked_nth)

lemma setFrequency_sel [simp]:
  "y (setFrequency f st) = y st" "potentialEnergy (setFrequency f st) = potentialEnergy st"
  "kineticEnergy (setFrequency f st) = kineticEnergy st"
  by (simp_all add: setFrequency_def Let_def)

lemma reachable_wf: "reachable s \<Longrightarrow> wf s"
  by (rule Inv_wf [OF reachable_Inv])

text \<open>A new string 1 whose sample 198 has overflowed: the candidate is infinite.\<close>

lemma want1_inf:
  "bridge_want
     (courant_sq (Fin (1 / 352800))
        ((string1 construct)\<lparr>y := (y (string1 construct))[198 := PInf]\<rparr>))
     (Fin (1 / 352800))
     ((string1 construct)\<lparr>y := (y (string1 construct))[198 := PInf]\<rparr>) = PInf"
proof -
  have len: "198 < length (y (string1 construct))"
    using wf_construct by (simp add: wf_def wf_string_def NUM_POINTS_def)
  have r: "courant_sq (Fin (1 / 352800))
             ((string1 construct)\<lparr>y := (y (string1 construct))[198 := PInf]\<rparr>) =
           courant_sq (Fin (1 / 352800)) (string1 construct)"
    by (simp add: courant_sq_def)
  show ?thesis
    unfolding r courant_sq_fresh1
    using len
    by (simp add: bridge_want_def Let_def NUM_POINTS_def string1_fresh string1_fresh_y
        ovf_small fsub_def)
qed

lemma candidate_inf:
  assumes "string1 a = (string1 construct)\<lparr>y := (y (string1 construct))[198 := PInf]\<rparr>"
    "string2 a = string2 construct" "dt a = Fin (1 / 352800)"
  shows "bridge_candidate a = PInf"
  unfolding bridge_candidate_def assms want1_inf want2_fresh
  by (simp add: string1_fresh string2_fresh ovf_small)

lemma bridgeY_pluck: "bridgeY (pluck idx p a s) = bridgeY s"
  by (simp add: pluck_def)

subsection \<open>Rounding, and the profile of \<^verbatim>\<open>pluck\<close> in binary32\<close>

lemma rne_err: "\<bar>of_int (rne z) - z\<bar> \<le> 1 / 2"
  unfolding rne_def Let_def by (auto simp: abs_if; linarith)

lemma rne_nonneg: "0 \<le> z \<Longrightarrow> 0 \<le> rne z"
  unfolding rne_def Let_def by (auto; linarith)

lemma rne_le: "z \<le> of_int n \<Longrightarrow> rne z \<le> n"
proof -
  assume a: "z \<le> of_int n"
  then have f: "\<lfloor>z\<rfloor> \<le> n" by (simp add: floor_le_iff)
  show ?thesis
  proof (cases "\<lfloor>z\<rfloor> = n")
    case True
    then have "z = of_int n" using a by linarith
    then show ?thesis by (simp add: rne_def)
  next
    case False
    with f have "\<lfloor>z\<rfloor> + 1 \<le> n" by simp
    then show ?thesis using f by (simp add: rne_def Let_def)
  qed
qed

lemma rne_int: "rne (of_int n) = n"
  by (simp add: rne_def)

lemma round32_nonneg: "0 \<le> r \<Longrightarrow> 0 \<le> round32 r"
  by (simp add: round32_def rne_nonneg)

lemma round32_half_ulp:
  assumes "r \<noteq> 0"
  shows "\<bar>round32 r - r\<bar> \<le> 2 powr of_int (expo32 r) / 2"
proof -
  let ?u = "(2::real) powr of_int (expo32 r)"
  have u: "0 < ?u" by simp
  have "round32 r - r = (of_int (rne (r / ?u)) - r / ?u) * ?u"
    using assms u by (simp add: round32_def field_simps)
  then have "\<bar>round32 r - r\<bar> = \<bar>of_int (rne (r / ?u)) - r / ?u\<bar> * ?u"
    using u by (simp add: abs_mult)
  also have "\<dots> \<le> 1 / 2 * ?u"
    using rne_err [of "r / ?u"] u by (intro mult_right_mono) simp_all
  finally show ?thesis by simp
qed

lemma round32_err: "\<bar>round32 r - r\<bar> \<le> \<bar>r\<bar> / 2 ^ 24 + 1 / 2 ^ 150"
proof (cases "r = 0")
  case True
  then show ?thesis by (simp add: round32_def)
next
  case False
  note h = round32_half_ulp [OF False]
  show ?thesis
  proof (cases "- 149 \<le> \<lfloor>log 2 \<bar>r\<bar>\<rfloor> - 23")
    case True
    then have e: "expo32 r = \<lfloor>log 2 \<bar>r\<bar>\<rfloor> - 23" by (simp add: expo32_def)
    have "(2::real) powr of_int (expo32 r) \<le> 2 powr (log 2 \<bar>r\<bar> - 23)"
      unfolding e by (intro powr_mono) simp_all
    also have "\<dots> = \<bar>r\<bar> / 2 ^ 23"
      using False by (simp add: powr_diff)
    finally have "2 powr of_int (expo32 r) / 2 \<le> \<bar>r\<bar> / 2 ^ 24" by simp
    with h show ?thesis by (smt (verit) divide_nonneg_pos zero_less_power)
  next
    case False
    then have e: "expo32 r = - 149" by (simp add: expo32_def)
    have "(2::real) powr of_int (expo32 r) / 2 = 1 / 2 ^ 150"
      unfolding e by (simp add: powr_neg_numeral)
    with h show ?thesis by (smt (verit) divide_nonneg_pos abs_ge_zero zero_less_power)
  qed
qed

lemma round32_le_one:
  assumes "0 \<le> r" "r \<le> 1"
  shows "round32 r \<le> 1"
proof (cases "r = 0")
  case True
  then show ?thesis by (simp add: round32_def)
next
  case False
  with assms have pos: "0 < r" by simp
  let ?k = "expo32 r"
  have "log 2 \<bar>r\<bar> \<le> 0" using pos assms(2) by simp
  then have "\<lfloor>log 2 \<bar>r\<bar>\<rfloor> \<le> 0" by (simp add: floor_le_iff)
  then have k: "?k \<le> 0" by (simp add: expo32_def)
  define n where "n = nat (- ?k)"
  have kn: "of_int ?k = - real n" using k by (simp add: n_def)
  have u: "(2::real) powr of_int ?k = 1 / 2 ^ n"
    unfolding kn by (simp add: powr_minus powr_realpow divide_inverse)
  have "r / (1 / 2 ^ n) \<le> of_int (2 ^ n)" using assms(2) by (simp add: field_simps)
  then have "rne (r / (1 / 2 ^ n)) \<le> 2 ^ n" by (rule rne_le)
  then have "real_of_int (rne (r / (1 / 2 ^ n))) \<le> 2 ^ n"
    by (metis of_int_le_iff of_int_numeral of_int_power)
  then show ?thesis using False by (simp add: round32_def u field_simps)
qed

lemma round32_binade:
  fixes e :: int
  assumes "2 powr of_int e \<le> \<bar>r\<bar>" "\<bar>r\<bar> < 2 powr of_int (e + 1)" "- 126 \<le> e"
  shows "round32 r = of_int (rne (r / 2 powr of_int (e - 23))) * 2 powr of_int (e - 23)"
proof -
  have nz: "r \<noteq> 0" using assms(1) by (smt (verit) powr_gt_zero)
  have "of_int e \<le> log 2 \<bar>r\<bar>" using assms(1) nz by (simp add: le_log_iff)
  moreover have "log 2 \<bar>r\<bar> < of_int (e + 1)" using assms(2) nz by (simp add: log_less_iff)
  ultimately have "\<lfloor>log 2 \<bar>r\<bar>\<rfloor> = e" by (simp add: floor_unique)
  then have "expo32 r = e - 23" using assms(3) by (simp add: expo32_def)
  then show ?thesis using nz by (simp add: round32_def)
qed

lemma pluck_body32_eq:
  "pluck_body32 p a i s =
   s\<lparr>y := (y s)[i := pluck_val32 p a i],
     y_prev := (y_prev s)[i := (y s)[i := pluck_val32 p a i] ! i],
     v := (v s)[i := Fin 0]\<rparr>"
  by (simp add: pluck_body32_def pluck_val32_def Let_def)

lemma pluck32_fold:
  assumes "wf_string st" "k \<le> NUM_POINTS"
  shows "fold (pluck_body32 p a) [0..<k] st =
         st\<lparr>y := take k (pluck_profile32 p a) @ drop k (y st),
            y_prev := take k (pluck_profile32 p a) @ drop k (y_prev st),
            v := take k (replicate NUM_POINTS (Fin 0)) @ drop k (v st)\<rparr>"
  using assms(2)
proof (induction k)
  case 0
  then show ?case by simp
next
  case (Suc k)
  then have k: "k < NUM_POINTS" by simp
  have nth_p: "pluck_profile32 p a ! k = pluck_val32 p a k"
    using k by (simp add: pluck_profile32_def)
  have nth_z: "replicate NUM_POINTS (Fin 0) ! k = Fin 0"
    using k by simp
  have len: "length (pluck_profile32 p a) = NUM_POINTS" by (simp add: pluck_profile32_def)
  have upd: "(take k (replicate NUM_POINTS (Fin 0)) @ drop k (v st))[k := Fin 0] =
             take (Suc k) (replicate NUM_POINTS (Fin 0)) @ drop (Suc k) (v st)"
    using take_drop_update [of k "replicate NUM_POINTS (Fin 0)" "v st"] k assms(1)
    by (simp add: wf_string_def)
  show ?case using Suc k assms(1) len upd
    by (simp add: pluck_body32_eq wf_string_def nth_append nth_p [symmetric] take_drop_update
        del: replicate.simps take_replicate)
qed

lemma pluck32_loop_eq:
  assumes "wf_string st"
  shows "for_loop 0 NUM_POINTS (pluck_body32 p a) st =
         st\<lparr>y := pluck_profile32 p a, y_prev := pluck_profile32 p a,
            v := replicate NUM_POINTS (Fin 0)\<rparr>"
  using pluck32_fold [OF assms, of NUM_POINTS p a] assms
  by (simp add: for_loop_fold wf_string_def pluck_profile32_def)

lemma energy_body32_fst:
  "fst (fold (energy_body32 st dx32) is acc) = fold (\<lambda>i ke. fadd32 ke (ke_term32 st i)) is (fst acc)"
  by (induction "is" arbitrary: acc) (simp_all add: energy_body32_def ke_term32_def Let_def)

lemma energy_body32_snd:
  "snd (fold (energy_body32 st dx32) is acc) =
   fold (\<lambda>i pe. if i < NUM_POINTS - 1 then fadd32 pe (pe_term32 st i) else pe) is (snd acc)"
  by (induction "is" arbitrary: acc) (simp_all add: energy_body32_def pe_term32_def Let_def)

lemma fold_fadd32_foldl: "fold (\<lambda>i a. fadd32 a (f i)) is a = foldl fadd32 a (map f is)"
  by (induction "is" arbitrary: a) simp_all

lemma fold_guard32_foldl:
  "fold (\<lambda>i a. if i < m then fadd32 a (f i) else a) [0..<n] a = foldl fadd32 a (map f [0..<min n m])"
proof (induction n)
  case 0
  then show ?case by simp
next
  case (Suc n)
  show ?case
  proof (cases "n < m")
    case True
    then have "min (Suc n) m = Suc n" "min n m = n" by simp_all
    with True Suc show ?thesis by simp
  next
    case False
    then have "min (Suc n) m = m" "min n m = m" by simp_all
    with False Suc show ?thesis by simp
  qed
qed

lemma computeEnergy32_fsum:
  "computeEnergy32 st =
   st\<lparr>kineticEnergy := kinetic_fsum32 st,
      potentialEnergy := potential_fsum32 st,
      totalEnergy := fadd32 (kinetic_fsum32 st) (potential_fsum32 st)\<rparr>"
proof -
  have m: "min NUM_POINTS (NUM_POINTS - 1) = NUM_POINTS - 1" by simp
  show ?thesis
    unfolding computeEnergy32_def Let_def for_loop_fold
      dx32_def [symmetric] energy_body32_fst energy_body32_snd
      fst_conv snd_conv fold_fadd32_foldl fold_guard32_foldl m
      kinetic_fsum32_def [symmetric] potential_fsum32_def [symmetric]
    by simp
qed

lemma fsum32_cong:
  assumes "y st' = y st" "v st' = v st" "density st' = density st" "tension st' = tension st"
  shows "kinetic_fsum32 st' = kinetic_fsum32 st" "potential_fsum32 st' = potential_fsum32 st"
proof -
  have "ke_term32 st' = ke_term32 st" "pe_term32 st' = pe_term32 st"
    using assms by (auto simp: ke_term32_def pe_term32_def fun_eq_iff)
  then show "kinetic_fsum32 st' = kinetic_fsum32 st" "potential_fsum32 st' = potential_fsum32 st"
    by (simp_all add: kinetic_fsum32_def potential_fsum32_def)
qed

lemma pluck_string32_eq:
  assumes "wf_string st"
  shows "pluck_string32 p0 a0 st =
         computeEnergy32
           (st\<lparr>v := replicate NUM_POINTS (Fin 0),
               y := (pluck_profile32 (std_max (Fin 0.1) (std_min (Fin 0.9) p0))
                       (std_max (Fin 0) (std_min (Fin 1) a0)))[0 := Fin 0],
               y_prev := (pluck_profile32 (std_max (Fin 0.1) (std_min (Fin 0.9) p0))
                            (std_max (Fin 0) (std_min (Fin 1) a0)))[0 := Fin 0]\<rparr>)"
  unfolding pluck_string32_def Let_def pluck32_loop_eq [OF assms] by simp

lemma selected_pluck32:
  "selected idx (pluck32 idx p a s) = pluck_string32 p a (selected idx s)"
  by (simp add: selected_def pluck32_def)

lemma pluck_string32_sel:
  assumes "wf_string st"
  shows "y (pluck_string32 p0 a0 st) =
           (pluck_profile32 (std_max (Fin 0.1) (std_min (Fin 0.9) p0))
              (std_max (Fin 0) (std_min (Fin 1) a0)))[0 := Fin 0]"
    and "y_prev (pluck_string32 p0 a0 st) = y (pluck_string32 p0 a0 st)"
    and "v (pluck_string32 p0 a0 st) = replicate NUM_POINTS (Fin 0)"
    and "kineticEnergy (pluck_string32 p0 a0 st) = kinetic_fsum32 (pluck_string32 p0 a0 st)"
    and "potentialEnergy (pluck_string32 p0 a0 st) = potential_fsum32 (pluck_string32 p0 a0 st)"
    and "totalEnergy (pluck_string32 p0 a0 st) =
         fadd32 (kinetic_fsum32 (pluck_string32 p0 a0 st)) (potential_fsum32 (pluck_string32 p0 a0 st))"
proof -
  let ?t = "st\<lparr>v := replicate NUM_POINTS (Fin 0),
               y := (pluck_profile32 (std_max (Fin 0.1) (std_min (Fin 0.9) p0))
                       (std_max (Fin 0) (std_min (Fin 1) a0)))[0 := Fin 0],
               y_prev := (pluck_profile32 (std_max (Fin 0.1) (std_min (Fin 0.9) p0))
                            (std_max (Fin 0) (std_min (Fin 1) a0)))[0 := Fin 0]\<rparr>"
  have e: "pluck_string32 p0 a0 st = computeEnergy32 ?t" by (rule pluck_string32_eq [OF assms])
  have c: "kinetic_fsum32 (computeEnergy32 ?t) = kinetic_fsum32 ?t"
    "potential_fsum32 (computeEnergy32 ?t) = potential_fsum32 ?t"
    by (rule fsum32_cong; simp add: computeEnergy32_fsum)+
  show "y (pluck_string32 p0 a0 st) =
           (pluck_profile32 (std_max (Fin 0.1) (std_min (Fin 0.9) p0))
              (std_max (Fin 0) (std_min (Fin 1) a0)))[0 := Fin 0]"
    and "y_prev (pluck_string32 p0 a0 st) = y (pluck_string32 p0 a0 st)"
    and "v (pluck_string32 p0 a0 st) = replicate NUM_POINTS (Fin 0)"
    unfolding e by (simp_all add: computeEnergy32_fsum)
  show "kineticEnergy (pluck_string32 p0 a0 st) = kinetic_fsum32 (pluck_string32 p0 a0 st)"
    and "potentialEnergy (pluck_string32 p0 a0 st) = potential_fsum32 (pluck_string32 p0 a0 st)"
    and "totalEnergy (pluck_string32 p0 a0 st) =
         fadd32 (kinetic_fsum32 (pluck_string32 p0 a0 st)) (potential_fsum32 (pluck_string32 p0 a0 st))"
    unfolding e c by (simp_all add: computeEnergy32_fsum)
qed

lemma rne_eval: "of_int n - 1 / 2 < z \<Longrightarrow> z < of_int n + 1 / 2 \<Longrightarrow> rne z = n"
  unfolding rne_def Let_def by (auto; linarith)

lemma round32_half:
  assumes "1 / 2 \<le> r" "r < 1"
  shows "round32 r = of_int (rne (r * 16777216)) / 16777216"
proof -
  have "2 powr of_int (- 1) \<le> \<bar>r\<bar>" "\<bar>r\<bar> < 2 powr of_int (- 1 + 1)"
    using assms by (simp_all add: powr_neg_numeral powr_minus)
  from round32_binade [OF this] show ?thesis by (simp add: powr_neg_numeral)
qed

lemma round32_quarter:
  assumes "1 / 4 \<le> r" "r < 1 / 2"
  shows "round32 r = of_int (rne (r * 33554432)) / 33554432"
proof -
  have "2 powr of_int (- 2) \<le> \<bar>r\<bar>" "\<bar>r\<bar> < 2 powr of_int (- 2 + 1)"
    using assms by (simp_all add: powr_neg_numeral powr_minus)
  from round32_binade [OF this] show ?thesis by (simp add: powr_neg_numeral)
qed

lemma round32_upper: "0 \<le> r \<Longrightarrow> round32 r \<le> r * (1 + 1 / 2 ^ 24) + 1 / 2 ^ 150"
  using round32_err [of r] by (simp add: algebra_simps abs_if split: if_splits)

lemma round32_lower: "0 \<le> r \<Longrightarrow> r * (1 - 1 / 2 ^ 24) - 1 / 2 ^ 150 \<le> round32 r"
  using round32_err [of r] by (simp add: algebra_simps abs_if split: if_splits)

lemma rnd_small:
  assumes "0 \<le> r" "r \<le> 100"
  shows "rnd (Fin r) = Fin (round32 r)" "0 \<le> round32 r"
    "round32 r \<le> r * (1 + 1 / 2 ^ 24) + 1 / 2 ^ 150"
proof -
  show 0: "0 \<le> round32 r" using assms(1) by (rule round32_nonneg)
  show u: "round32 r \<le> r * (1 + 1 / 2 ^ 24) + 1 / 2 ^ 150" using assms(1) by (rule round32_upper)
  have "r * (1 + 1 / 2 ^ 24) + 1 / 2 ^ 150 \<le> 100 * (1 + 1 / 2 ^ 24) + 1 / 2 ^ 150"
    using assms(2) by (intro add_right_mono mult_right_mono) simp_all
  also have "\<dots> \<le> 10 ^ 30" by simp
  finally have "\<bar>round32 r\<bar> \<le> 10 ^ 30" using 0 u by simp
  then show "rnd (Fin r) = Fin (round32 r)" by (simp add: ovf_small)
qed

lemma rising_aux:
  fixes ar pr xr u d tr yr :: real
  assumes a: "0 \<le> ar" "ar \<le> 1" and p: "1 / 10 \<le> pr" and x: "0 \<le> xr" "xr < pr"
    and u: "0 \<le> u" "u \<le> 1 / 16" and d: "0 \<le> d"
    and t: "tr \<le> ar * xr * (1 + u) + d"
    and y: "yr \<le> tr / pr * (1 + u) + d"
  shows "yr \<le> ar * (1 + 8 * u) + 1024 * d"
proof -
  have pp: "0 < pr" using p by simp
  have "ar * xr \<le> ar * pr" using a(1) x(2) by (intro mult_left_mono) simp_all
  then have "ar * xr * (1 + u) \<le> ar * pr * (1 + u)" using u(1) by (intro mult_right_mono) simp_all
  with t have "tr \<le> ar * pr * (1 + u) + d" by simp
  then have "tr / pr \<le> (ar * pr * (1 + u) + d) / pr" using pp by (intro divide_right_mono) simp_all
  also have "\<dots> = ar * (1 + u) + d / pr" using pp by (simp add: field_simps)
  also have "d / pr \<le> d / (1 / 10)" using d p by (intro divide_left_mono) simp_all
  finally have q: "tr / pr \<le> ar * (1 + u) + 10 * d" by simp
  have "tr / pr * (1 + u) \<le> (ar * (1 + u) + 10 * d) * (1 + u)"
    using q u(1) by (intro mult_right_mono) simp_all
  with y have y1: "yr \<le> ar * ((1 + u) * (1 + u)) + 10 * d * (1 + u) + d" by (simp add: algebra_simps)
  have "u * u \<le> 1 / 16 * u" using u by (intro mult_right_mono) simp_all
  then have "(1 + u) * (1 + u) \<le> 1 + 8 * u" using u(1) by (simp add: algebra_simps)
  then have t1: "ar * ((1 + u) * (1 + u)) \<le> ar * (1 + 8 * u)" using a(1) by (intro mult_left_mono)
  have "10 * d * (1 + u) \<le> 10 * d * (1 + 1 / 16)" using u(2) d by (intro mult_left_mono) simp_all
  then have t2: "10 * d * (1 + u) + d \<le> 1024 * d" using d by simp
  from y1 t1 t2 show ?thesis by linarith
qed

lemma falling_aux:
  fixes ar m u d wr tr dr yr :: real
  assumes a: "0 \<le> ar" "ar \<le> 1" and m: "1 / 10 \<le> m"
    and u: "0 \<le> u" "u \<le> 1 / 16" and d: "0 \<le> d" "d \<le> 1 / 1000"
    and w: "0 \<le> wr" "wr \<le> m * (1 + u) + d"
    and t: "0 \<le> tr" "tr \<le> ar * wr * (1 + u) + d"
    and dr: "m * (1 - u) - d \<le> dr"
    and y: "yr \<le> tr / dr * (1 + u) + d"
  shows "yr \<le> ar * (1 + 8 * u) + 1024 * d"
proof -
  let ?D = "m * (1 - u) - d"
  have mu: "1 / 10 * (15 / 16) \<le> m * (1 - u)" using m u by (intro mult_mono) simp_all
  then have Dpos: "0 < ?D" using d(2) by simp
  then have drpos: "0 < dr" using dr by simp
  have "ar * wr \<le> ar * (m * (1 + u) + d)" using a(1) w(2) by (intro mult_left_mono)
  then have "ar * wr * (1 + u) \<le> ar * (m * (1 + u) + d) * (1 + u)"
    using u(1) by (intro mult_right_mono) simp_all
  with t(2) have T: "tr \<le> ar * (m * (1 + u) + d) * (1 + u) + d" by simp
  have id: "(ar * (1 + 4 * u) + 64 * d) * ?D - (ar * (m * (1 + u) + d) * (1 + u) + d) =
            ar * m * u * (1 - 5 * u) + d * (64 * (m * (1 - u)) - 64 * d - 1 - ar * (2 + 5 * u))"
    by (simp add: algebra_simps)
  have n1: "0 \<le> ar * m * u * (1 - 5 * u)" using a(1) m u by simp
  have "ar * (2 + 5 * u) \<le> 1 * (2 + 5 * (1 / 16))" using a u by (intro mult_mono) simp_all
  then have "0 \<le> 64 * (m * (1 - u)) - 64 * d - 1 - ar * (2 + 5 * u)" using mu d(2) by simp
  then have n2: "0 \<le> d * (64 * (m * (1 - u)) - 64 * d - 1 - ar * (2 + 5 * u))"
    using d(1) by simp
  from id n1 n2 T have "tr \<le> (ar * (1 + 4 * u) + 64 * d) * ?D" by linarith
  also have "\<dots> \<le> (ar * (1 + 4 * u) + 64 * d) * dr"
    using dr a(1) u(1) d(1) by (intro mult_left_mono) simp_all
  finally have q: "tr / dr \<le> ar * (1 + 4 * u) + 64 * d" using drpos by (simp add: field_simps)
  have "tr / dr * (1 + u) \<le> (ar * (1 + 4 * u) + 64 * d) * (1 + u)"
    using q u(1) by (intro mult_right_mono) simp_all
  with y have y1: "yr \<le> ar * ((1 + 4 * u) * (1 + u)) + 64 * d * (1 + u) + d"
    by (simp add: algebra_simps)
  have "u * u \<le> 1 / 16 * u" using u by (intro mult_right_mono) simp_all
  then have "(1 + 4 * u) * (1 + u) \<le> 1 + 8 * u" using u(1) by (simp add: algebra_simps)
  then have t1: "ar * ((1 + 4 * u) * (1 + u)) \<le> ar * (1 + 8 * u)" using a(1) by (intro mult_left_mono)
  have "64 * d * (1 + u) \<le> 64 * d * (1 + 1 / 16)" using u(2) d by (intro mult_left_mono) simp_all
  then have t2: "64 * d * (1 + u) + d \<le> 1024 * d" using d by simp
  from y1 t1 t2 show ?thesis by linarith
qed

lemma fmul32_small:
  "0 \<le> a \<Longrightarrow> 0 \<le> b \<Longrightarrow> a * b \<le> 100 \<Longrightarrow> fmul32 (Fin a) (Fin b) = Fin (round32 (a * b))"
  by (simp add: fmul32_def ovf_small rnd_small(1) del: rnd.simps)

lemma fdiv32_small:
  "0 \<le> a \<Longrightarrow> 0 < b \<Longrightarrow> a / b \<le> 100 \<Longrightarrow> fdiv32 (Fin a) (Fin b) = Fin (round32 (a / b))"
  by (simp add: fdiv32_def ovf_small rnd_small(1) del: rnd.simps)

lemma fsub32_small:
  "b \<le> a \<Longrightarrow> a - b \<le> 100 \<Longrightarrow> fsub32 (Fin a) (Fin b) = Fin (round32 (a - b))"
  by (simp add: fsub32_def fsub_Fin ovf_small rnd_small(1) del: rnd.simps)

lemma grid32:
  assumes "i < NUM_POINTS"
  shows "fdiv32 (Fin (real i)) (Fin (real (NUM_POINTS - 1))) = Fin (round32 (real i / 199))"
    and "0 \<le> round32 (real i / 199)" and "round32 (real i / 199) \<le> 1"
proof -
  have i: "real i / 199 \<le> 1" using assms by (simp add: NUM_POINTS_def)
  show "fdiv32 (Fin (real i)) (Fin (real (NUM_POINTS - 1))) = Fin (round32 (real i / 199))"
    using i fdiv32_small [of "real i" 199] by (simp add: NUM_POINTS_def)
  show "0 \<le> round32 (real i / 199)" by (rule round32_nonneg) simp
  show "round32 (real i / 199) \<le> 1" using i by (intro round32_le_one) simp_all
qed

lemma pluck_val32_bound:
  assumes p: "1 / 10 \<le> pr" "pr \<le> 9 / 10" and a: "0 \<le> ar" "ar \<le> 1" and i: "i < NUM_POINTS"
  shows "\<exists>yr. pluck_val32 (Fin pr) (Fin ar) i = Fin yr \<and> 0 \<le> yr \<and>
              yr \<le> ar * (1 + 1 / 2 ^ 21) + 1 / 2 ^ 140"
proof -
  define xr where "xr = round32 (real i / 199)"
  note g = grid32 [OF i, folded xr_def]
  have u: "(0::real) \<le> 1 / 2 ^ 24" "(1::real) / 2 ^ 24 \<le> 1 / 16" by simp_all
  have d: "(0::real) \<le> 1 / 2 ^ 150" "(1::real) / 2 ^ 150 \<le> 1 / 1000" by simp_all
  show ?thesis
  proof (cases "xr < pr")
    case True
    have ax: "0 \<le> ar * xr" "ar * xr \<le> 1"
      using a g(2,3) by (simp_all add: mult_le_one)
    define tr where "tr = round32 (ar * xr)"
    have t: "fmul32 (Fin ar) (Fin xr) = Fin tr" "0 \<le> tr" "tr \<le> ar * xr * (1 + 1 / 2 ^ 24) + 1 / 2 ^ 150"
      unfolding tr_def using a(1) g(2) ax rnd_small(2,3) [of "ar * xr"]
      by (simp_all add: fmul32_small)
    have "ar * xr * (1 + 1 / 2 ^ 24) \<le> 1 * (1 + 1 / 2 ^ 24)"
      using ax(2) by (intro mult_right_mono) simp_all
    moreover have "(1::real) * (1 + 1 / 2 ^ 24) + 1 / 2 ^ 150 \<le> 2" by simp
    ultimately have t2: "tr \<le> 2" using t(3) by linarith
    have "tr / pr \<le> 2 / (1 / 10)" using t2 t(2) p(1) by (intro frac_le) simp_all
    then have q: "0 \<le> tr / pr" "tr / pr \<le> 100" using t(2) p(1) by simp_all
    define yr where "yr = round32 (tr / pr)"
    have y: "fdiv32 (Fin tr) (Fin pr) = Fin yr" "0 \<le> yr" "yr \<le> tr / pr * (1 + 1 / 2 ^ 24) + 1 / 2 ^ 150"
      unfolding yr_def using t(2) p(1) q rnd_small(2,3) [of "tr / pr"]
      by (simp_all add: fdiv32_small)
    have "yr \<le> ar * (1 + 8 * (1 / 2 ^ 24)) + 1024 * (1 / 2 ^ 150)"
      by (rule rising_aux [OF a p(1) g(2) True u d(1) t(3) y(3)])
    then have b: "yr \<le> ar * (1 + 1 / 2 ^ 21) + 1 / 2 ^ 140" by simp
    have "pluck_val32 (Fin pr) (Fin ar) i = Fin yr"
      unfolding pluck_val32_def Let_def g(1) using True by (simp add: t(1) y(1))
    with y(2) b show ?thesis by blast
  next
    case False
    then have xp: "pr \<le> xr" by simp
    define m where "m = 1 - pr"
    have m: "1 / 10 \<le> m" "m \<le> 9 / 10" using p by (simp_all add: m_def)
    define wr where "wr = round32 (1 - xr)"
    have w0: "0 \<le> 1 - xr" "1 - xr \<le> m" using g(3) xp by (simp_all add: m_def)
    have w: "fsub32 (Fin 1) (Fin xr) = Fin wr" "0 \<le> wr" "wr \<le> (1 - xr) * (1 + 1 / 2 ^ 24) + 1 / 2 ^ 150"
      unfolding wr_def using g(3) w0 rnd_small(2,3) [of "1 - xr"] m(2)
      by (simp_all add: fsub32_small)
    have "(1 - xr) * (1 + 1 / 2 ^ 24) \<le> m * (1 + 1 / 2 ^ 24)"
      using w0(2) by (intro mult_right_mono) simp_all
    with w(3) have w3: "wr \<le> m * (1 + 1 / 2 ^ 24) + 1 / 2 ^ 150" by linarith
    have "m * (1 + 1 / 2 ^ 24) \<le> 9 / 10 * (1 + 1 / 2 ^ 24)"
      using m(2) by (intro mult_right_mono) simp_all
    moreover have "(9::real) / 10 * (1 + 1 / 2 ^ 24) + 1 / 2 ^ 150 \<le> 1" by simp
    ultimately have w1: "wr \<le> 1" using w3 by linarith
    have aw: "0 \<le> ar * wr" "ar * wr \<le> 1" using a w(2) w1 by (simp_all add: mult_le_one)
    define tr where "tr = round32 (ar * wr)"
    have t: "fmul32 (Fin ar) (Fin wr) = Fin tr" "0 \<le> tr" "tr \<le> ar * wr * (1 + 1 / 2 ^ 24) + 1 / 2 ^ 150"
      unfolding tr_def using a(1) w(2) aw rnd_small(2,3) [of "ar * wr"]
      by (simp_all add: fmul32_small)
    have "ar * wr * (1 + 1 / 2 ^ 24) \<le> 1 * (1 + 1 / 2 ^ 24)"
      using aw(2) by (intro mult_right_mono) simp_all
    moreover have "(1::real) * (1 + 1 / 2 ^ 24) + 1 / 2 ^ 150 \<le> 2" by simp
    ultimately have t2: "tr \<le> 2" using t(3) by linarith
    define dr where "dr = round32 (1 - pr)"
    have dl: "m * (1 - 1 / 2 ^ 24) - 1 / 2 ^ 150 \<le> dr"
      unfolding dr_def m_def using p(2) by (intro round32_lower) simp
    have "1 / 10 * (1 - 1 / 2 ^ 24) \<le> m * (1 - 1 / 2 ^ 24)"
      using m(1) by (intro mult_right_mono) simp_all
    moreover have "(1::real) / 20 \<le> 1 / 10 * (1 - 1 / 2 ^ 24) - 1 / 2 ^ 150" by simp
    ultimately have dpos: "1 / 20 \<le> dr" using dl by linarith
    have dd: "fsub32 (Fin 1) (Fin pr) = Fin dr"
      unfolding dr_def using p by (simp add: fsub32_small)
    have "tr / dr \<le> 2 / (1 / 20)" using t2 t(2) dpos by (intro frac_le) simp_all
    then have q: "0 \<le> tr / dr" "tr / dr \<le> 100" using t(2) dpos by simp_all
    define yr where "yr = round32 (tr / dr)"
    have y: "fdiv32 (Fin tr) (Fin dr) = Fin yr" "0 \<le> yr" "yr \<le> tr / dr * (1 + 1 / 2 ^ 24) + 1 / 2 ^ 150"
      unfolding yr_def using t(2) dpos q rnd_small(2,3) [of "tr / dr"]
      by (simp_all add: fdiv32_small)
    have "yr \<le> ar * (1 + 8 * (1 / 2 ^ 24)) + 1024 * (1 / 2 ^ 150)"
      by (rule falling_aux [OF a m(1) u d w(2) w3 t(2,3) dl y(3)])
    then have b: "yr \<le> ar * (1 + 1 / 2 ^ 21) + 1 / 2 ^ 140" by simp
    have "pluck_val32 (Fin pr) (Fin ar) i = Fin yr"
      unfolding pluck_val32_def Let_def g(1) using False by (simp add: w(1) t(1) dd y(1))
    with y(2) b show ?thesis by blast
  qed
qed

text \<open>Sample 105 at position 0.527638197f, amplitude 0.535016239f.\<close>

lemma round32_x105: "round32 (105 / 199) = 2213075 / 4194304"
proof -
  have h: "round32 (105 / 199) = of_int (rne (105 / 199 * 16777216)) / 16777216"
    by (rule round32_half) simp_all
  have e: "rne (105 / 199 * 16777216) = 8852300" by (rule rne_eval) simp_all
  show ?thesis unfolding h e by simp
qed

lemma round32_w105: "round32 (1 - 2213075 / 4194304) = 1981229 / 4194304"
proof -
  have h: "round32 (1 - 2213075 / 4194304) =
           of_int (rne ((1 - 2213075 / 4194304) * 33554432)) / 33554432"
    by (rule round32_quarter) simp_all
  have e: "rne ((1 - 2213075 / 4194304) * 33554432) = 15849832" by (rule rne_eval) simp_all
  show ?thesis unfolding h e by simp
qed

lemma round32_t105:
  "round32 (8976083 / 16777216 * (1981229 / 4194304)) = 4239959 / 16777216"
proof -
  have h: "round32 (8976083 / 16777216 * (1981229 / 4194304)) =
           of_int (rne (8976083 / 16777216 * (1981229 / 4194304) * 33554432)) / 33554432"
    by (rule round32_quarter) simp_all
  have e: "rne (8976083 / 16777216 * (1981229 / 4194304) * 33554432) = 8479918"
    by (rule rne_eval) simp_all
  show ?thesis unfolding h e by simp
qed

lemma round32_y105:
  "round32 (4239959 / 16777216 / (1981229 / 4194304)) = 2244021 / 4194304"
proof -
  have h: "round32 (4239959 / 16777216 / (1981229 / 4194304)) =
           of_int (rne (4239959 / 16777216 / (1981229 / 4194304) * 16777216)) / 16777216"
    by (rule round32_half) simp_all
  have e: "rne (4239959 / 16777216 / (1981229 / 4194304) * 16777216) = 8976084"
    by (rule rne_eval) simp_all
  show ?thesis unfolding h e by simp
qed

lemma pluck_val32_105:
  "pluck_val32 (Fin (2213075 / 4194304)) (Fin (8976083 / 16777216)) 105 = Fin (2244021 / 4194304)"
proof -
  have i: "(105::nat) < NUM_POINTS" by (simp add: NUM_POINTS_def)
  have x: "fdiv32 (Fin (real (105::nat))) (Fin (real (NUM_POINTS - 1))) = Fin (2213075 / 4194304)"
    unfolding grid32(1) [OF i] using round32_x105 by simp
  have w: "fsub32 (Fin 1) (Fin (2213075 / 4194304)) = Fin (1981229 / 4194304)"
    using fsub32_small [of "2213075 / 4194304" 1] round32_w105 by simp
  have t: "fmul32 (Fin (8976083 / 16777216)) (Fin (1981229 / 4194304)) = Fin (4239959 / 16777216)"
    using fmul32_small [of "8976083 / 16777216" "1981229 / 4194304"] round32_t105 by simp
  have y: "fdiv32 (Fin (4239959 / 16777216)) (Fin (1981229 / 4194304)) = Fin (2244021 / 4194304)"
    using fdiv32_small [of "4239959 / 16777216" "1981229 / 4194304"] round32_y105 by simp
  show ?thesis
    unfolding pluck_val32_def Let_def x by (simp add: w t y)
qed

lemma clamp_105:
  "std_max (Fin (1 / 10)) (std_min (Fin (9 / 10)) (Fin (2213075 / 4194304))) =
   Fin (2213075 / 4194304)"
  "std_max (Fin 0) (std_min (Fin 1) (Fin (8976083 / 16777216))) = Fin (8976083 / 16777216)"
  by (simp_all add: std_max_def std_min_def)

lemma pluck32_nth:
  assumes "wf s" "i < NUM_POINTS"
  shows "y (selected idx (pluck32 idx position amplitude s)) ! i =
         (if i = 0 then Fin 0
          else pluck_val32 (std_max (Fin 0.1) (std_min (Fin 0.9) position))
                 (std_max (Fin 0) (std_min (Fin 1) amplitude)) i)"
  using assms(2)
  by (simp add: selected_pluck32 pluck_string32_sel [OF wf_selected [OF assms(1)]]
      pluck_profile32_def nth_list_update)

section \<open>The claims\<close>

text \<open>
  C1. Immediately after a physics step --- a call of \<^verbatim>\<open>stepOnce\<close>, each of the \<open>k > 0\<close>
  steps run inside \<^verbatim>\<open>step\<close>, and a whole call \<^verbatim>\<open>step(numSteps)\<close> with
  \<open>numSteps \<ge> 1\<close> --- \<^verbatim>\<open>string1.y[199]\<close>, \<^verbatim>\<open>string2.y[199]\<close> and \<^verbatim>\<open>bridgeY\<close> are the
  same value, and they compare equal. This holds from every state with 200-sample buffers,
  whatever its samples are (finite, infinite or NaN) and whether the constraint held before
  the step or not; every reachable state is such a state (lemma \<open>reachable_wf\<close>).
\<close>

theorem bridge_constraint_after_step:
  assumes "wf s"
  shows "bridge_shared (stepOnce s) \<and>
         (\<forall>k. 0 < k \<longrightarrow> bridge_shared (step_loop k s)) \<and>
         (\<forall>numSteps. 0 < sint numSteps \<longrightarrow> bridge_shared (step numSteps s))"
proof -
  have loop: "bridge_shared (step_loop k s)" if pos: "0 < k" for k
  proof -
    obtain j where "k = Suc j" using pos by (auto simp: gr0_conv_Suc)
    then show ?thesis
      using bridge_shared_stepOnce [OF wf_step_loop [OF assms, of j]]
      by (simp only: step_loop_snoc)
  qed
  show ?thesis
    using bridge_shared_stepOnce [OF assms] loop by (simp add: step_def)
qed

text \<open>
  The witness is the state after \<^verbatim>\<open>pluck(0, 0.5, 1.0)\<close>, \<^verbatim>\<open>step(1)\<close>,
  \<^verbatim>\<open>pluck(0, 0.5, 1.0)\<close>: there \<^verbatim>\<open>string1.y[199]\<close> is 0 and \<^verbatim>\<open>bridgeY\<close> is not, and
  the next step restores the constraint.
\<close>

theorem bridge_constraint_after_step_witness:
  "wf (pluck 0 (Fin (1 / 2)) (Fin 1) (step 1 (pluck 0 (Fin (1 / 2)) (Fin 1) construct))) \<and>
   y (string1 (pluck 0 (Fin (1 / 2)) (Fin 1) (step 1 (pluck 0 (Fin (1 / 2)) (Fin 1) construct))))
     ! 199 = Fin 0 \<and>
   bridgeY (pluck 0 (Fin (1 / 2)) (Fin 1) (step 1 (pluck 0 (Fin (1 / 2)) (Fin 1) construct))) =
     Fin (1151113699093238919 / 4266370646535200000000) \<and>
   \<not> bridge_shared
       (pluck 0 (Fin (1 / 2)) (Fin 1) (step 1 (pluck 0 (Fin (1 / 2)) (Fin 1) construct))) \<and>
   bridge_shared (stepOnce
       (pluck 0 (Fin (1 / 2)) (Fin 1) (step 1 (pluck 0 (Fin (1 / 2)) (Fin 1) construct)))) \<and>
   bridge_shared (step 3
       (pluck 0 (Fin (1 / 2)) (Fin 1) (step 1 (pluck 0 (Fin (1 / 2)) (Fin 1) construct))))"
proof -
  let ?P = "pluck 0 (Fin (1 / 2)) (Fin 1) construct"
  let ?s = "pluck 0 (Fin (1 / 2)) (Fin 1) (step 1 ?P)"
  have wP: "wf ?P" using wf_construct by (rule wf_pluck)
  have w1: "wf (step 1 ?P)" unfolding step_one using wP by (rule wf_stepOnce)
  have w: "wf ?s" using w1 by (rule wf_pluck)
  have y1: "y (string1 ?s) ! 199 = Fin 0"
    using pluck_bridge_end(1) [OF w1, of 0] by (simp add: selected_def)
  have b: "bridgeY ?s = Fin (1151113699093238919 / 4266370646535200000000)"
    unfolding bridgeY_pluck step_one stepOnce_sel(3) [OF wP] by (rule bridge_after_pluck)
  have n: "\<not> bridge_shared ?s" by (simp add: bridge_shared_def NUM_POINTS_def y1 b)
  have pos: "0 < sint (3 :: 32 word)" by simp
  show ?thesis
    using bridge_constraint_after_step [OF w] w y1 b n pos by blast
qed



text \<open>
  C3. The claim: the new bridge position is the tension-weighted average of the two
  candidates, blended with the old position by the stiffness, clamped to \<open>[-0.5, 0.5]\<close>
  and, if not finite, replaced by 0.0. Where the blend is finite the code computes that
  number (lemma \<open>bridge_next_formula\<close>). But the clamp
  \<^verbatim>\<open>std::max(-0.5f, std::min(0.5f, x))\<close> runs before the test \<^verbatim>\<open>!std::isfinite\<close> and never
  returns a non-finite value (lemma \<open>new_bridge_check_dead\<close>), so the replacement by 0.0
  never happens: from the constructed state with \<^verbatim>\<open>string1.y[198]\<close> a NaN, both the
  candidate and the blend are NaN, and the step leaves \<^verbatim>\<open>bridgeY = 0.5\<close>, not 0.0.
\<close>

theorem nan_bridge_becomes_half:
  "bridgeY (stepOnce (construct\<lparr>string1 := (string1 construct)
       \<lparr>y := (y (string1 construct))[198 := NaN]\<rparr>\<rparr>)) = Fin (1 / 2) \<and>
   bridgeY (stepOnce (construct\<lparr>string1 := (string1 construct)
       \<lparr>y := (y (string1 construct))[198 := NaN]\<rparr>\<rparr>)) \<noteq> Fin 0"
proof -
  let ?s = "construct\<lparr>string1 := (string1 construct)\<lparr>y := (y (string1 construct))[198 := NaN]\<rparr>\<rparr>"
  have w: "wf ?s" using wf_construct by (simp add: wf_def wf_string_def)
  have "y (string1 ?s) ! (NUM_POINTS - 2) = NaN"
    using wf_construct by (simp add: wf_def wf_string_def NUM_POINTS_def)
  then have "bridge_next ?s = Fin (1 / 2)"
    unfolding bridge_next_def by (simp only: bridge_want_NaN new_bridge_NaN)
  then show ?thesis by (simp add: stepOnce_sel(3) [OF w])
qed

text \<open>
  C4. The claim: \<^verbatim>\<open>pluck\<close> leaves \<^verbatim>\<open>y[199]\<close> and \<^verbatim>\<open>y_prev[199]\<close> of the plucked string
  unchanged. It does not: the loop of \<^verbatim>\<open>pluck\<close> runs over all 200 samples. After
  \<^verbatim>\<open>pluck(0, 0.5, 1.0)\<close> and one step on a new simulation, \<^verbatim>\<open>string1.y[199]\<close> is the
  bridge position \<open>1151113699093238919 / 4266370646535200000000\<close> (about 0.00027); a
  second \<^verbatim>\<open>pluck(0, 0.5, 1.0)\<close> sets it to 0.
\<close>

theorem pluck_bridge_end_counterexample:
  "y (selected 0 (step 1 (pluck 0 (Fin (1 / 2)) (Fin 1) construct))) ! 199 =
     Fin (1151113699093238919 / 4266370646535200000000) \<and>
   y (selected 0 (pluck 0 (Fin (1 / 2)) (Fin 1)
        (step 1 (pluck 0 (Fin (1 / 2)) (Fin 1) construct)))) ! 199 = Fin 0 \<and>
   y (selected 0 (pluck 0 (Fin (1 / 2)) (Fin 1)
        (step 1 (pluck 0 (Fin (1 / 2)) (Fin 1) construct)))) ! 199 \<noteq>
   y (selected 0 (step 1 (pluck 0 (Fin (1 / 2)) (Fin 1) construct))) ! 199"
proof -
  have w: "wf (pluck 0 (Fin (1 / 2)) (Fin 1) construct)"
    using wf_construct by (rule wf_pluck)
  have w': "wf (step 1 (pluck 0 (Fin (1 / 2)) (Fin 1) construct))"
    unfolding step_one using w by (rule wf_stepOnce)
  have before: "y (selected 0 (step 1 (pluck 0 (Fin (1 / 2)) (Fin 1) construct))) ! 199 =
     Fin (1151113699093238919 / 4266370646535200000000)"
    unfolding step_one
    by (simp add: selected_def stepOnce_sel [OF w] y_new_of_nth NUM_POINTS_def bridge_after_pluck)
  have after: "y (selected 0 (pluck 0 (Fin (1 / 2)) (Fin 1)
        (step 1 (pluck 0 (Fin (1 / 2)) (Fin 1) construct)))) ! 199 = Fin 0"
    by (rule pluck_bridge_end(1) [OF w'])
  show ?thesis unfolding before after by simp
qed

text \<open>
  C4, amended. For every well-formed state and all float arguments, \<^verbatim>\<open>pluck\<close> sets
  \<^verbatim>\<open>y[199]\<close> and \<^verbatim>\<open>y_prev[199]\<close> of the plucked string to 0, the value of the triangular
  profile at the bridge end, whatever they were; the next step overwrites \<^verbatim>\<open>y[199]\<close> of
  both strings with the bridge position.
\<close>

theorem pluck_sets_bridge_end_zero:
  assumes "wf s"
  shows "y (selected idx (pluck idx position amplitude s)) ! 199 = Fin 0 \<and>
         y_prev (selected idx (pluck idx position amplitude s)) ! 199 = Fin 0 \<and>
         bridge_shared (stepOnce (pluck idx position amplitude s))"
  using pluck_bridge_end [OF assms] bridge_shared_stepOnce [OF wf_pluck [OF assms]]
  by simp

theorem pluck_sets_bridge_end_zero_witness:
  "wf (step 1 (pluck 0 (Fin (1 / 2)) (Fin 1) construct)) \<and>
   y (selected 0 (pluck 0 (Fin (1 / 2)) (Fin 1)
        (step 1 (pluck 0 (Fin (1 / 2)) (Fin 1) construct)))) ! 199 = Fin 0 \<and>
   y_prev (selected 0 (pluck 0 (Fin (1 / 2)) (Fin 1)
        (step 1 (pluck 0 (Fin (1 / 2)) (Fin 1) construct)))) ! 199 = Fin 0 \<and>
   bridge_shared (stepOnce (pluck 0 (Fin (1 / 2)) (Fin 1)
        (step 1 (pluck 0 (Fin (1 / 2)) (Fin 1) construct))))"
proof -
  have "wf (pluck 0 (Fin (1 / 2)) (Fin 1) construct)"
    using wf_construct by (rule wf_pluck)
  then have w: "wf (step 1 (pluck 0 (Fin (1 / 2)) (Fin 1) construct))"
    unfolding step_one by (rule wf_stepOnce)
  show ?thesis using pluck_sets_bridge_end_zero [OF w] w by blast
qed










text \<open>
  C8. One step appends to the three histories exactly when the incremented \<^verbatim>\<open>stepCount\<close>
  is a multiple of 100 (\<^verbatim>\<open>stepCount % 100 == 0\<close>): then each history loses its oldest
  element first if \<^verbatim>\<open>energy1History\<close> already holds 500, and gets the new total energy
  of string 1, of string 2 and the new bridge position; otherwise the step leaves them as
  they are. In every reachable state the three histories have the same length, at most 500.
\<close>

theorem history_aligned_and_bounded:
  assumes "reachable s"
  shows "length (energy2History s) = length (energy1History s) \<and>
         length (bridgeHistory s) = length (energy1History s) \<and>
         length (energy1History s) \<le> 500 \<and>
         stepCount (stepOnce s) = stepCount s + 1 \<and>
         (if sint (stepCount (stepOnce s)) smod 100 = 0
          then energy1History (stepOnce s) =
                 (if 500 \<le> length (energy1History s) then tl (energy1History s)
                  else energy1History s) @ [totalEnergy (string1 (stepOnce s))] \<and>
               energy2History (stepOnce s) =
                 (if 500 \<le> length (energy1History s) then tl (energy2History s)
                  else energy2History s) @ [totalEnergy (string2 (stepOnce s))] \<and>
               bridgeHistory (stepOnce s) =
                 (if 500 \<le> length (energy1History s) then tl (bridgeHistory s)
                  else bridgeHistory s) @ [bridgeY (stepOnce s)]
          else energy1History (stepOnce s) = energy1History s \<and>
               energy2History (stepOnce s) = energy2History s \<and>
               bridgeHistory (stepOnce s) = bridgeHistory s)"
proof -
  have i: "Inv s" using assms by (rule reachable_Inv)
  have w: "wf s" using i by (rule Inv_wf)
  have h: "energy1History (step_core s) = energy1History s"
    "energy2History (step_core s) = energy2History s"
    "bridgeHistory (step_core s) = bridgeHistory s"
    "stepCount (step_core s) = stepCount s + 1"
    by (simp_all add: step_core_def)
  show ?thesis
    using i h unfolding stepOnce_eq [OF w]
    by (simp add: Inv_def HISTORY_LENGTH_def recordHistory_def Let_def)
qed

theorem history_aligned_and_bounded_witness:
  "reachable (step 99 construct) \<and>
   length (energy2History (step 99 construct)) = length (energy1History (step 99 construct)) \<and>
   length (bridgeHistory (step 99 construct)) = length (energy1History (step 99 construct)) \<and>
   length (energy1History (step 99 construct)) \<le> 500 \<and>
   stepCount (stepOnce (step 99 construct)) = stepCount (step 99 construct) + 1"
proof -
  have r: "reachable (step 99 construct)" by (intro reachable.intros)
  show ?thesis using history_aligned_and_bounded [OF r] r by blast
qed

text \<open>
  C9. From every reachable state \<^verbatim>\<open>reset()\<close> gives the state of the constructor: the
  strings at 261.63 Hz and 392.00 Hz with the tension \<open>4\<cdot>density\<cdot>length\<^sup>2\<cdot>f\<^sup>2\<close> and the wave
  speed \<open>sqrt(tension/density)\<close>, all buffers zero, \<^verbatim>\<open>bridgeY = bridgeV = 0\<close>,
  \<^verbatim>\<open>bridgeStiffness = 1\<close>, \<^verbatim>\<open>time = 0\<close>, \<^verbatim>\<open>stepCount = 0\<close> and empty histories.
\<close>

theorem reset_is_fresh:
  assumes "reachable s"
  shows "reset s = construct \<and>
         frequency (string1 construct) = Fin 261.63 \<and>
         frequency (string2 construct) = Fin 392.00 \<and>
         tension (string1 construct) = Fin (4 * 0.001 * 1 * 1 * 261.63 * 261.63) \<and>
         tension (string2 construct) = Fin (4 * 0.001 * 1 * 1 * 392.00 * 392.00) \<and>
         waveSpeed (string1 construct) = Fin (sqrt (4 * 0.001 * 1 * 1 * 261.63 * 261.63 / 0.001)) \<and>
         waveSpeed (string2 construct) = Fin (sqrt (4 * 0.001 * 1 * 1 * 392.00 * 392.00 / 0.001)) \<and>
         y (string1 construct) = replicate NUM_POINTS (Fin 0) \<and>
         y_prev (string1 construct) = replicate NUM_POINTS (Fin 0) \<and>
         v (string1 construct) = replicate NUM_POINTS (Fin 0) \<and>
         y (string2 construct) = replicate NUM_POINTS (Fin 0) \<and>
         y_prev (string2 construct) = replicate NUM_POINTS (Fin 0) \<and>
         v (string2 construct) = replicate NUM_POINTS (Fin 0) \<and>
         bridgeY construct = Fin 0 \<and> bridgeV construct = Fin 0 \<and>
         bridgeStiffness construct = Fin 1 \<and> time construct = Fin 0 \<and>
         stepCount construct = 0 \<and>
         energy1History construct = [] \<and> energy2History construct = [] \<and>
         bridgeHistory construct = []"
proof -
  have "dt s = Fin (1 / 352800)" using reachable_Inv [OF assms] by (simp add: Inv_def)
  then have "reset s = construct"
    by (simp add: reset_def construct_def Let_def ovf_small)
  moreover have "string1 construct = setFrequency (Fin 261.63) StringState_new"
    "string2 construct = setFrequency (Fin 392.00) StringState_new"
    by (simp_all add: construct_def)
  ultimately show ?thesis
    by (simp add: setFrequency_def StringState_new_def Let_def ovf_small) (simp add: construct_def)
qed

theorem reset_is_fresh_witness:
  "reachable (step 800 (pluck 0 (Fin (1 / 2)) (Fin 1) (setDamping (Fin (1 / 1000)) construct))) \<and>
   reset (step 800 (pluck 0 (Fin (1 / 2)) (Fin 1) (setDamping (Fin (1 / 1000)) construct))) =
   construct"
proof -
  have r: "reachable (step 800 (pluck 0 (Fin (1 / 2)) (Fin 1) (setDamping (Fin (1 / 1000)) construct)))"
    by (intro reachable.intros)
  show ?thesis using reset_is_fresh [OF r] r by blast
qed

text \<open>
  C10. \<^verbatim>\<open>setString1Frequency(f)\<close> changes nothing but the fields \<^verbatim>\<open>frequency\<close>,
  \<^verbatim>\<open>tension\<close> and \<^verbatim>\<open>waveSpeed\<close> of string 1, for every state and every float \<open>f\<close>:
  the new state is the old one with these three fields replaced. The same holds for
  \<^verbatim>\<open>setString2Frequency\<close> and string 2.
\<close>

theorem setFrequency_frame:
  "setString1Frequency freq s =
     s\<lparr>string1 := (string1 s)
         \<lparr>frequency := frequency (string1 (setString1Frequency freq s)),
          tension := tension (string1 (setString1Frequency freq s)),
          waveSpeed := waveSpeed (string1 (setString1Frequency freq s))\<rparr>\<rparr> \<and>
   setString2Frequency freq s =
     s\<lparr>string2 := (string2 s)
         \<lparr>frequency := frequency (string2 (setString2Frequency freq s)),
          tension := tension (string2 (setString2Frequency freq s)),
          waveSpeed := waveSpeed (string2 (setString2Frequency freq s))\<rparr>\<rparr>"
  by (simp add: setString1Frequency_def setString2Frequency_def setFrequency_def Let_def)

end
